theory Spec2Isabelle
  imports Complex_Main "HOL-Library.Word"
begin

section \<open>JavaScript values\<close>

text \<open>
  The handlers of the spots router read the request body as parsed JSON. A string is a
  sequence of UTF-16 code units (its \<open>length\<close> counts code units); a number is an
  IEEE-754 double, modelled by the rational it denotes, or one of the three special
  values. The sign of zero is not observable by any operation the router performs.
\<close>

type_synonym jsstring = "16 word list"

datatype jsnum = Finite rat | NaN | PosInf | NegInf

datatype jsval =
    JUndefined
  | JNull
  | JBool bool
  | JNum jsnum
  | JStr jsstring
  | JArr "jsval list"
  | JObj "(jsstring \<times> jsval) list"

text \<open>The conversion of \<open>!!value\<close>: the falsy values are undefined, null, false, 0, NaN and the empty string.\<close>

fun truthy :: "jsval \<Rightarrow> bool" where
  "truthy JUndefined = False"
| "truthy JNull = False"
| "truthy (JBool b) = b"
| "truthy (JNum n) = (n \<noteq> NaN \<and> n \<noteq> Finite 0)"
| "truthy (JStr s) = (s \<noteq> [])"
| "truthy (JArr xs) = True"
| "truthy (JObj kvs) = True"

text \<open>The comparison \<open>a < b\<close> of two numbers: false as soon as one of them is NaN.\<close>

fun num_lt :: "jsnum \<Rightarrow> jsnum \<Rightarrow> bool" where
  "num_lt NaN b = False"
| "num_lt a NaN = False"
| "num_lt (Finite a) (Finite b) = (a < b)"
| "num_lt (Finite a) PosInf = True"
| "num_lt (Finite a) NegInf = False"
| "num_lt PosInf b = False"
| "num_lt NegInf NegInf = False"
| "num_lt NegInf b = True"

text \<open>
  \<open>ToNumber\<close> on undefined, null, booleans and numbers. On strings, arrays and objects it
  parses a numeric literal, after \<open>ToPrimitive\<close>; that part of the runtime is the
  parameter \<open>tn\<close>.
\<close>

fun to_number :: "(jsval \<Rightarrow> jsnum) \<Rightarrow> jsval \<Rightarrow> jsnum" where
  "to_number tn JUndefined = NaN"
| "to_number tn JNull = Finite 0"
| "to_number tn (JBool b) = (if b then Finite 1 else Finite 0)"
| "to_number tn (JNum n) = n"
| "to_number tn v = tn v"

text \<open>\<open>Number.isInteger(value)\<close>: a number, finite, with no fractional part.\<close>

fun isInteger :: "jsval \<Rightarrow> bool" where
  "isInteger (JNum (Finite q)) = (rat_of_int \<lfloor>q\<rfloor> = q)"
| "isInteger v = False"

definition length_key :: jsstring where
  "length_key = [0x6C, 0x65, 0x6E, 0x67, 0x74, 0x68]"

text \<open>
  \<open>value.length\<close>. Reading a property of undefined or null throws a TypeError (None);
  booleans and numbers have no such property; a parsed JSON object has it when it has
  a member of that name, the last one if the name is repeated.
\<close>

fun get_length :: "jsval \<Rightarrow> jsval option" where
  "get_length JUndefined = None"
| "get_length JNull = None"
| "get_length (JBool b) = Some JUndefined"
| "get_length (JNum n) = Some JUndefined"
| "get_length (JStr s) = Some (JNum (Finite (of_nat (length s))))"
| "get_length (JArr xs) = Some (JNum (Finite (of_nat (length xs))))"
| "get_length (JObj kvs) =
     (case map_of (rev kvs) length_key of None \<Rightarrow> Some JUndefined | Some v \<Rightarrow> Some v)"

section \<open>Validation rule sets\<close>

text \<open>
  The request body, a dictionary; a member that is missing reads as undefined. The rule
  sets are stated on the value the request carries for each field in its body:
  \<open>check\<close> of express-validator looks for the field in the query, the route
  parameters, the headers and the cookies as well, and the requests modelled here carry
  it in the body only.
\<close>

type_synonym body = "string \<rightharpoonup> jsval"

definition field :: "body \<Rightarrow> string \<Rightarrow> jsval" where
  "field b k = (case b k of None \<Rightarrow> JUndefined | Some v \<Rightarrow> v)"

text \<open>
  A chain \<open>check(f).v1.v2...\<close> of express-validator runs every validator of the chain on
  the field's value and records one error, with the validator's message, for each that
  fails. \<open>withMessage\<close> names the message of the validator just before it; a validator
  without one reports \<open>Invalid value\<close>.
\<close>

type_synonym validator = "(jsval \<Rightarrow> bool) \<times> string"

type_synonym field_error = "string \<times> string"

definition check :: "string \<Rightarrow> validator list \<Rightarrow> body \<Rightarrow> field_error list" where
  "check f vs b = map (\<lambda>v. (f, snd v)) (filter (\<lambda>v. \<not> fst v (field b f)) vs)"

definition exists_checkFalsy :: "jsval \<Rightarrow> bool" where
  "exists_checkFalsy v = truthy v"

definition default_message :: string where
  "default_message = ''Invalid value''"

text \<open>
  \<open>(value, { req }) => value.length < 50\<close>; a validator that throws has failed.
\<close>

definition name_custom :: "(jsval \<Rightarrow> jsnum) \<Rightarrow> jsval \<Rightarrow> bool" where
  "name_custom tn v =
     (case get_length v of
        None \<Rightarrow> False
      | Some l \<Rightarrow> num_lt (to_number tn l) (Finite 50))"

text \<open>
  \<open>(value, { req }) => Number.isInteger(value) && value > 0 && value < 6\<close>; the two
  comparisons are reached on numbers only.
\<close>

definition stars_custom :: "jsval \<Rightarrow> bool" where
  "stars_custom v =
     (isInteger v \<and>
      (case v of JNum n \<Rightarrow> num_lt (Finite 0) n \<and> num_lt n (Finite 6) | _ \<Rightarrow> False))"

definition validateSpotEdit_rules :: "(jsval \<Rightarrow> jsnum) \<Rightarrow> body \<Rightarrow> field_error list" where
  "validateSpotEdit_rules tn b =
     check ''address'' [(exists_checkFalsy, ''Street address is required'')] b @
     check ''city'' [(exists_checkFalsy, ''City is required'')] b @
     check ''state'' [(exists_checkFalsy, ''State is required'')] b @
     check ''country'' [(exists_checkFalsy, ''Country is required'')] b @
     check ''lat'' [(exists_checkFalsy, ''Latitude is not valid'')] b @
     check ''lng'' [(exists_checkFalsy, ''Longitude is not valid'')] b @
     check ''name'' [(exists_checkFalsy, default_message),
                     (name_custom tn, ''Name must be less than 50 characters'')] b @
     check ''description'' [(exists_checkFalsy, ''Description is required'')] b @
     check ''price'' [(exists_checkFalsy, ''Price per day is required'')] b"

definition validateSpotCreation_rules :: "(jsval \<Rightarrow> jsnum) \<Rightarrow> body \<Rightarrow> field_error list" where
  "validateSpotCreation_rules tn b =
     check ''address'' [(exists_checkFalsy, ''Street address is required'')] b @
     check ''city'' [(exists_checkFalsy, ''City is required'')] b @
     check ''state'' [(exists_checkFalsy, ''State is required'')] b @
     check ''country'' [(exists_checkFalsy, ''Country is required'')] b @
     check ''lat'' [(exists_checkFalsy, ''Latitude is not valid'')] b @
     check ''lng'' [(exists_checkFalsy, ''Longitude is not valid'')] b @
     check ''name'' [(exists_checkFalsy, default_message),
                     (name_custom tn, ''Name must be less than 50 characters'')] b @
     check ''description'' [(exists_checkFalsy, ''Description is required'')] b @
     check ''price'' [(exists_checkFalsy, ''Price per day is required'')] b @
     check ''previewImage'' [(exists_checkFalsy, ''Preview image url is required'')] b"

definition validateReviewCreation_rules :: "body \<Rightarrow> field_error list" where
  "validateReviewCreation_rules b =
     check ''review'' [(exists_checkFalsy, ''Review text is required'')] b @
     check ''stars'' [(exists_checkFalsy, default_message),
                      (stars_custom, ''Stars must be an integer from 1 to 5'')] b"

section \<open>Errors\<close>

text \<open>
  A handler fails by throwing an \<open>Error\<close> that carries a message and a status.
\<close>

datatype error =
    Error string nat
  | ValidationFailed "field_error list"
  | StoreError

fun status_of :: "error \<Rightarrow> nat" where
  "status_of (Error m s) = s"
| "status_of (ValidationFailed es) = 400"
| "status_of StoreError = 500"

text \<open>
  Modelled from the spec: \<open>handleValidationErrors\<close> of \<open>utils/validation\<close>, the last
  member of every rule set, is not among the sources. Sections 4.1 and 7 give its
  behaviour: on any failing rule the request is rejected before the handler runs, with
  ValidationFailed, status 400, and the list of field and message pairs of the rule set;
  otherwise the request goes on to the handler.
\<close>

definition handleValidationErrors :: "field_error list \<Rightarrow> error option" where
  "handleValidationErrors es = (if es = [] then None else Some (ValidationFailed es))"

definition validateSpotCreation :: "(jsval \<Rightarrow> jsnum) \<Rightarrow> body \<Rightarrow> error option" where
  "validateSpotCreation tn b = handleValidationErrors (validateSpotCreation_rules tn b)"

definition validateSpotEdit :: "(jsval \<Rightarrow> jsnum) \<Rightarrow> body \<Rightarrow> error option" where
  "validateSpotEdit tn b = handleValidationErrors (validateSpotEdit_rules tn b)"

definition validateReviewCreation :: "body \<Rightarrow> error option" where
  "validateReviewCreation b = handleValidationErrors (validateReviewCreation_rules b)"

section \<open>Numbers: division and \<open>toFixed\<close>\<close>

text \<open>
  The value of a double is a rational; an arithmetic operation gives the double nearest
  to the exact result, ties going to the even significand (IEEE-754 binary64: 53
  significant bits, exponents from -1022 to 1023, subnormal numbers below, infinity
  from \<open>2^1024\<close> on).
\<close>

function ilog2 :: "int \<Rightarrow> int" where
  "ilog2 n = (if n < 2 then 0 else 1 + ilog2 (n div 2))"
  by pat_completeness auto
termination
  by (relation "measure nat") auto

declare ilog2.simps [simp del]

definition pow2 :: "int \<Rightarrow> rat" where
  "pow2 e = (if 0 \<le> e then 2 ^ nat e else 1 / 2 ^ nat (- e))"

text \<open>The binary exponent of a positive rational: \<open>2^e \<le> q < 2^(e+1)\<close>.\<close>

definition exponent :: "rat \<Rightarrow> int" where
  "exponent q =
     (let d = ilog2 (fst (quotient_of q)) - ilog2 (snd (quotient_of q))
      in if pow2 d \<le> q then d else d - 1)"

definition round_half_even :: "rat \<Rightarrow> int" where
  "round_half_even x =
     (let f = \<lfloor>x\<rfloor>; r = x - of_int f
      in if r < 1 / 2 then f
         else if 1 / 2 < r then f + 1
         else if even f then f else f + 1)"

definition fl :: "rat \<Rightarrow> jsnum" where
  "fl q =
     (if q = 0 then Finite 0
      else
        let a = \<bar>q\<bar>;
            e = max (exponent a) (- 1022);
            u = pow2 (e - 52);
            r = of_int (round_half_even (a / u)) * u
        in if 2 ^ 1024 \<le> r then (if q < 0 then NegInf else PosInf)
           else Finite (if q < 0 then - r else r))"

text \<open>The Number that an integer of the data store converts to.\<close>

definition num_of_int :: "int \<Rightarrow> jsnum" where
  "num_of_int k = fl (of_int k)"

text \<open>
  The operator \<open>/\<close> on Numbers. A zero operand stands for \<open>+0\<close>: the operands of the
  router's one division are converted from integers and from null.
\<close>

fun js_div :: "jsnum \<Rightarrow> jsnum \<Rightarrow> jsnum" where
  "js_div NaN b = NaN"
| "js_div a NaN = NaN"
| "js_div (Finite a) (Finite b) =
     (if b = 0 then (if a = 0 then NaN else if 0 < a then PosInf else NegInf)
      else fl (a / b))"
| "js_div (Finite a) PosInf = Finite 0"
| "js_div (Finite a) NegInf = Finite 0"
| "js_div PosInf (Finite b) = (if b < 0 then NegInf else PosInf)"
| "js_div NegInf (Finite b) = (if b < 0 then PosInf else NegInf)"
| "js_div PosInf b = NaN"
| "js_div NegInf b = NaN"

text \<open>The decimal digits of an integer that is not negative.\<close>

function digits :: "int \<Rightarrow> string" where
  "digits n =
     (if n < 10 then [''0123456789'' ! nat n]
      else digits (n div 10) @ [''0123456789'' ! nat (n mod 10)])"
  by pat_completeness auto
termination
  by (relation "measure nat") auto

declare digits.simps [simp del]

text \<open>
  \<open>Number.prototype.toFixed(1)\<close>, from the integer \<open>n\<close> on: the digits of \<open>n\<close>, padded on
  the left with zeros to two characters, with a point before the last one.
\<close>

definition fixed1 :: "int \<Rightarrow> string" where
  "fixed1 n =
     (let m = digits n;
          m' = (if length m \<le> 1 then replicate (2 - length m) (CHR ''0'') @ m else m);
          k = length m'
      in take (k - 1) m' @ ''.'' @ drop (k - 1) m')"

text \<open>
  The result of \<open>x.toFixed(1)\<close>, a string. For a finite \<open>x\<close> below \<open>10^21\<close> in absolute value it
  is built from the integer \<open>n\<close> for which \<open>n / 10 - |x|\<close> is as close to zero as possible, the
  larger one if there are two. From \<open>10^21\<close> on it is \<open>ToString(x)\<close>, in exponential notation,
  which is kept as \<open>Exponential x\<close>.
\<close>

datatype fixed = Decimal string | Exponential rat

fun toFixed1 :: "jsnum \<Rightarrow> fixed" where
  "toFixed1 NaN = Decimal ''NaN''"
| "toFixed1 PosInf = Decimal ''Infinity''"
| "toFixed1 NegInf = Decimal ''-Infinity''"
| "toFixed1 (Finite x) =
     (if 10 ^ 21 \<le> \<bar>x\<bar> then Exponential x
      else Decimal ((if x < 0 then ''-'' else []) @ fixed1 \<lfloor>10 * \<bar>x\<bar> + 1 / 2\<rfloor>))"

section \<open>The data store\<close>

text \<open>
  The tables the router reads and writes through the ORM. A row of \<open>Spots\<close> keeps the ten
  listing fields as the values the handlers pass to the ORM. The \<open>stars\<close> column of
  \<open>Reviews\<close> holds integers (the seeder inserts 5, 1 and 3).
\<close>

record spot_row =
  spot_id :: int
  ownerId :: int
  address :: jsval
  city :: jsval
  state :: jsval
  country :: jsval
  lat :: jsval
  lng :: jsval
  name :: jsval
  description :: jsval
  price :: jsval
  previewImage :: jsval
  createdAt :: nat
  updatedAt :: nat

record review_row =
  review_id :: int
  userId :: int
  spotId :: int
  review :: jsval
  stars :: int

record image_row =
  image_id :: int
  imageableId :: int
  imageableType :: string
  url :: string

record user_row =
  user_id :: int
  profile :: jsval

record db =
  spots :: "spot_row list"
  reviews :: "review_row list"
  images :: "image_row list"
  users :: "user_row list"
  nextSpotId :: int
  nextReviewId :: int

datatype payload =
    Spots "spot_row list"
  | SpotDetails spot_row "(int \<times> int \<times> string) list" "user_row option" int fixed
  | SpotJson spot_row
  | Deleted string nat
  | Reviews "(review_row \<times> user_row option \<times> (int \<times> int \<times> string) list) list"
  | ReviewJson review_row

record response =
  status :: nat
  json :: payload

type_synonym outcome = "(error + response) \<times> db"

definition findByPk :: "spot_row list \<Rightarrow> int \<Rightarrow> spot_row option" where
  "findByPk ss k = find (\<lambda>s. spot_id s = k) ss"

definition spot_not_found :: error where
  "spot_not_found = Error ''Spot couldn't be found'' 404"

section \<open>Spot handlers\<close>

text \<open>
  Every handler takes the store and gives its outcome, the error thrown or the response
  sent, with the store it leaves. A handler behind \<open>requireAuth\<close> is reached with
  \<open>req.user\<close> set; \<open>uid\<close> is \<open>req.user.id\<close>. \<open>sid\<close> is the integer that
  \<open>Number(req.params.spotId)\<close> reads from the path.
\<close>

text \<open>\<open>router.get('/')\<close>: all spots, with all their columns.\<close>

definition get_spots :: "db \<Rightarrow> outcome" where
  "get_spots d = (Inr \<lparr>status = 200, json = Spots (spots d)\<rparr>, d)"

text \<open>
  The two aggregate queries of \<open>router.get('/:id')\<close> over the reviews of a spot:
  \<open>COUNT(review)\<close>, and \<open>SUM(stars)\<close>, which is null when there is no row.
\<close>

definition reviews_of :: "db \<Rightarrow> int \<Rightarrow> review_row list" where
  "reviews_of d sid = filter (\<lambda>r. spotId r = sid) (reviews d)"

definition numReviews :: "db \<Rightarrow> int \<Rightarrow> int" where
  "numReviews d sid = int (length (reviews_of d sid))"

definition sumOfStars :: "db \<Rightarrow> int \<Rightarrow> int option" where
  "sumOfStars d sid =
     (if reviews_of d sid = [] then None else Some (sum_list (map stars (reviews_of d sid))))"

text \<open>\<open>(ratingSum / reviewCount).toFixed(1)\<close>; null converts to the number 0.\<close>

definition avgStarRating :: "db \<Rightarrow> int \<Rightarrow> fixed" where
  "avgStarRating d sid =
     (let reviewCount = numReviews d sid;
          ratingSum = sumOfStars d sid
      in toFixed1 (js_div (case ratingSum of None \<Rightarrow> Finite 0 | Some s \<Rightarrow> num_of_int s)
                          (num_of_int reviewCount)))"

definition image_attrs :: "image_row \<Rightarrow> int \<times> int \<times> string" where
  "image_attrs i = (image_id i, imageableId i, url i)"

text \<open>\<open>router.get('/:id')\<close>: the spot with its images and owner, the count and the average.\<close>

definition get_spot :: "int \<Rightarrow> db \<Rightarrow> outcome" where
  "get_spot sid d =
     (case findByPk (spots d) sid of
        None \<Rightarrow> (Inl spot_not_found, d)
      | Some spotDetails \<Rightarrow>
          (Inr \<lparr>status = 200,
                json = SpotDetails spotDetails
                         (map image_attrs (filter (\<lambda>i. imageableId i = spot_id spotDetails) (images d)))
                         (find (\<lambda>u. user_id u = ownerId spotDetails) (users d))
                         (numReviews d sid)
                         (avgStarRating d sid)\<rparr>, d))"

text \<open>
  \<open>router.post('/')\<close>: the row is built from the ten body fields and \<open>req.user.id\<close>; the
  store gives it the next identifier and the time \<open>now\<close> for both timestamps.
\<close>

definition post_spots_handler :: "nat \<Rightarrow> int \<Rightarrow> body \<Rightarrow> db \<Rightarrow> outcome" where
  "post_spots_handler now uid b d =
     (let spot = \<lparr>spot_id = nextSpotId d,
                  ownerId = uid,
                  address = field b ''address'',
                  city = field b ''city'',
                  state = field b ''state'',
                  country = field b ''country'',
                  lat = field b ''lat'',
                  lng = field b ''lng'',
                  name = field b ''name'',
                  description = field b ''description'',
                  price = field b ''price'',
                  previewImage = field b ''previewImage'',
                  createdAt = now,
                  updatedAt = now\<rparr>
      in (Inr \<lparr>status = 200, json = SpotJson spot\<rparr>,
          d\<lparr>spots := spots d @ [spot], nextSpotId := nextSpotId d + 1\<rparr>))"

definition post_spots :: "(jsval \<Rightarrow> jsnum) \<Rightarrow> nat \<Rightarrow> int \<Rightarrow> body \<Rightarrow> db \<Rightarrow> outcome" where
  "post_spots tn now uid b d =
     (case validateSpotCreation tn b of
        Some err \<Rightarrow> (Inl err, d)
      | None \<Rightarrow> post_spots_handler now uid b d)"

text \<open>
  \<open>spot.update({...})\<close>: the nine fields of the row, and \<open>now\<close>, the \<open>updatedAt\<close> that the
  ORM leaves on it.
\<close>

definition update_spot :: "nat \<Rightarrow> body \<Rightarrow> spot_row \<Rightarrow> spot_row" where
  "update_spot now b spot =
     spot\<lparr>address := field b ''address'',
          city := field b ''city'',
          state := field b ''state'',
          country := field b ''country'',
          lat := field b ''lat'',
          lng := field b ''lng'',
          name := field b ''name'',
          description := field b ''description'',
          price := field b ''price'',
          updatedAt := now\<rparr>"

text \<open>
  \<open>router.put('/:spotId')\<close>. The guard is \<open>!spot || (spot.id !== req.user.id)\<close>. The
  instance was loaded without \<open>previewImage\<close>, so the response has none; the column
  of the row is not written.
\<close>

definition put_spot_handler :: "nat \<Rightarrow> int \<Rightarrow> int \<Rightarrow> body \<Rightarrow> db \<Rightarrow> outcome" where
  "put_spot_handler now uid sid b d =
     (case findByPk (spots d) sid of
        None \<Rightarrow> (Inl spot_not_found, d)
      | Some spot \<Rightarrow>
          if spot_id spot \<noteq> uid then (Inl spot_not_found, d)
          else
            (Inr \<lparr>status = 200,
                  json = SpotJson ((update_spot now b spot)\<lparr>previewImage := JUndefined\<rparr>)\<rparr>,
             d\<lparr>spots := map (\<lambda>x. if spot_id x = spot_id spot then update_spot now b x else x)
                             (spots d)\<rparr>))"

definition put_spot :: "(jsval \<Rightarrow> jsnum) \<Rightarrow> nat \<Rightarrow> int \<Rightarrow> int \<Rightarrow> body \<Rightarrow> db \<Rightarrow> outcome" where
  "put_spot tn now uid sid b d =
     (case validateSpotEdit tn b of
        Some err \<Rightarrow> (Inl err, d)
      | None \<Rightarrow> put_spot_handler now uid sid b d)"

text \<open>
  \<open>router.delete('/:spotId')\<close>, with the same guard; \<open>Spot.destroy\<close> removes the rows of
  \<open>Spots\<close> whose id is \<open>spotId\<close>. It is the only statement the handler issues; what a
  foreign-key declaration of the schema adds to it is not part of the router.
\<close>

definition delete_spot :: "int \<Rightarrow> int \<Rightarrow> db \<Rightarrow> outcome" where
  "delete_spot uid sid d =
     (case findByPk (spots d) sid of
        None \<Rightarrow> (Inl spot_not_found, d)
      | Some spot \<Rightarrow>
          if spot_id spot \<noteq> uid then (Inl spot_not_found, d)
          else
            (Inr \<lparr>status = 200, json = Deleted ''Successfully deleted'' 200\<rparr>,
             d\<lparr>spots := filter (\<lambda>x. spot_id x \<noteq> sid) (spots d)\<rparr>))"

section \<open>Review handlers\<close>

text \<open>\<open>router.get('/:spotId/reviews')\<close>: the reviews of a spot, each with its author and images.\<close>

definition get_spot_reviews :: "int \<Rightarrow> db \<Rightarrow> outcome" where
  "get_spot_reviews sid d =
     (case findByPk (spots d) sid of
        None \<Rightarrow> (Inl spot_not_found, d)
      | Some spotDetails \<Rightarrow>
          (Inr \<lparr>status = 200,
                json = Reviews
                  (map (\<lambda>r. (r, find (\<lambda>u. user_id u = userId r) (users d),
                             map image_attrs (filter (\<lambda>i. imageableId i = review_id r) (images d))))
                       (reviews_of d sid))\<rparr>, d))"

text \<open>
  The \<open>stars\<close> column holds integers. The rule set lets through integer numbers only, and
  those are stored as they are; for any other value the insertion is left to the ORM and
  the data base, and is the outcome \<open>StoreError\<close> here.
\<close>

definition integer_column :: "jsval \<Rightarrow> int option" where
  "integer_column v =
     (case v of
        JNum (Finite q) \<Rightarrow> if rat_of_int \<lfloor>q\<rfloor> = q then Some \<lfloor>q\<rfloor> else None
      | _ \<Rightarrow> None)"

definition already_reviewed :: error where
  "already_reviewed = Error ''User already has a review for this spot'' 403"

text \<open>\<open>router.post('/:spotId/reviews')\<close>.\<close>

definition post_spot_review_handler :: "int \<Rightarrow> int \<Rightarrow> body \<Rightarrow> db \<Rightarrow> outcome" where
  "post_spot_review_handler uid sid b d =
     (case findByPk (spots d) sid of
        None \<Rightarrow> (Inl spot_not_found, d)
      | Some spot \<Rightarrow>
          (case find (\<lambda>r. userId r = uid \<and> spotId r = spot_id spot) (reviews d) of
             Some existingReview \<Rightarrow> (Inl already_reviewed, d)
           | None \<Rightarrow>
               (case integer_column (field b ''stars'') of
                  None \<Rightarrow> (Inl StoreError, d)
                | Some n \<Rightarrow>
                    (let newReview = \<lparr>review_id = nextReviewId d,
                                       userId = uid,
                                       spotId = sid,
                                       review = field b ''review'',
                                       stars = n\<rparr>
                     in (Inr \<lparr>status = 200, json = ReviewJson newReview\<rparr>,
                         d\<lparr>reviews := reviews d @ [newReview],
                           nextReviewId := nextReviewId d + 1\<rparr>)))))"

definition post_spot_review :: "int \<Rightarrow> int \<Rightarrow> body \<Rightarrow> db \<Rightarrow> outcome" where
  "post_spot_review uid sid b d =
     (case validateReviewCreation b of
        Some err \<Rightarrow> (Inl err, d)
      | None \<Rightarrow> post_spot_review_handler uid sid b d)"

section \<open>Sequences of requests\<close>

text \<open>
  Requests are handled one after the other, each on the store the one before left.
  A request behind \<open>requireAuth\<close> carries the identifier of its user.
\<close>

datatype request =
    GetSpots
  | GetSpot int
  | PostSpots nat int body
  | PutSpot nat int int body
  | DeleteSpot int int
  | GetSpotReviews int
  | PostSpotReview int int body

fun route :: "(jsval \<Rightarrow> jsnum) \<Rightarrow> request \<Rightarrow> db \<Rightarrow> outcome" where
  "route tn GetSpots d = get_spots d"
| "route tn (GetSpot sid) d = get_spot sid d"
| "route tn (PostSpots now uid b) d = post_spots tn now uid b d"
| "route tn (PutSpot now uid sid b) d = put_spot tn now uid sid b d"
| "route tn (DeleteSpot uid sid) d = delete_spot uid sid d"
| "route tn (GetSpotReviews sid) d = get_spot_reviews sid d"
| "route tn (PostSpotReview uid sid b) d = post_spot_review uid sid b d"

fun run :: "(jsval \<Rightarrow> jsnum) \<Rightarrow> request list \<Rightarrow> db \<Rightarrow> (error + response) list \<times> db" where
  "run tn [] d = ([], d)"
| "run tn (r # rs) d =
     (let (out, d') = route tn r d; (outs, d'') = run tn rs d' in (out # outs, d''))"

text \<open>The number of requests of a run that created a review by user \<open>u\<close> for spot \<open>s\<close>.\<close>

fun review_created :: "int \<Rightarrow> int \<Rightarrow> request \<Rightarrow> (error + response) \<Rightarrow> bool" where
  "review_created u s (PostSpotReview uid sid b) (Inr r) = (uid = u \<and> sid = s)"
| "review_created u s r out = False"

definition reviews_created :: "int \<Rightarrow> int \<Rightarrow> request list \<Rightarrow> (error + response) list \<Rightarrow> nat" where
  "reviews_created u s rs outs = length (filter (\<lambda>(r, out). review_created u s r out) (zip rs outs))"

text \<open>The invariant of the \<open>Reviews\<close> table: at most one review for a user and a spot.\<close>

definition one_review_per_user_spot :: "db \<Rightarrow> bool" where
  "one_review_per_user_spot d = distinct (map (\<lambda>r. (userId r, spotId r)) (reviews d))"

text \<open>The number of reviews that user \<open>u\<close> has for spot \<open>s\<close>.\<close>

definition pair_count :: "int \<Rightarrow> int \<Rightarrow> db \<Rightarrow> nat" where
  "pair_count u s d = length (filter (\<lambda>r. userId r = u \<and> spotId r = s) (reviews d))"

text \<open>
  The words of the specification for the average: the mean of the star values, and a
  number of tenths \<open>n\<close> that is the mean rounded to one decimal place, that is, with no
  other tenth nearer to the mean.
\<close>

definition mean :: "int list \<Rightarrow> rat" where
  "mean xs = rat_of_int (sum_list xs) / rat_of_nat (length xs)"

definition rounded_to_one_decimal :: "int \<Rightarrow> rat \<Rightarrow> bool" where
  "rounded_to_one_decimal n q = (\<bar>rat_of_int n / 10 - q\<bar> \<le> 1 / 20)"

section \<open>A store and requests to run the handlers on\<close>

definition str :: "string \<Rightarrow> jsstring" where
  "str s = map of_char s"

text \<open>The three rows that the seeder \<open>20220719064000-reviews\<close> inserts.\<close>

definition seed_reviews :: "review_row list" where
  "seed_reviews =
     [\<lparr>review_id = 1, userId = 1, spotId = 2, review = JStr (str ''This place rocks''), stars = 5\<rparr>,
      \<lparr>review_id = 2, userId = 2, spotId = 3, review = JStr (str ''This owner is a jerk''), stars = 1\<rparr>,
      \<lparr>review_id = 3, userId = 3, spotId = 1, review = JStr (str ''This place is okay''), stars = 3\<rparr>]"

definition spot_body :: body where
  "spot_body =
     [''address'' \<mapsto> JStr (str ''1 Main Street''),
      ''city'' \<mapsto> JStr (str ''Springfield''),
      ''state'' \<mapsto> JStr (str ''Oregon''),
      ''country'' \<mapsto> JStr (str ''USA''),
      ''lat'' \<mapsto> JNum (Finite (441 / 10)),
      ''lng'' \<mapsto> JNum (Finite (- 123)),
      ''name'' \<mapsto> JStr (str ''Cabin''),
      ''description'' \<mapsto> JStr (str ''By the river''),
      ''price'' \<mapsto> JNum (Finite 120),
      ''previewImage'' \<mapsto> JStr (str ''cabin.png'')]"

definition listing :: "int \<Rightarrow> int \<Rightarrow> spot_row" where
  "listing i owner =
     \<lparr>spot_id = i, ownerId = owner,
      address = JStr (str ''2 High Street''), city = JStr (str ''Salem''),
      state = JStr (str ''Oregon''), country = JStr (str ''USA''),
      lat = JNum (Finite 45), lng = JNum (Finite (- 123)),
      name = JStr (str ''Loft''), description = JStr (str ''In town''),
      price = JNum (Finite 80), previewImage = JStr (str ''loft.png''),
      createdAt = 0, updatedAt = 0\<rparr>"

text \<open>
  Four spots, the first of user 2, the second of user 1, the third of user 3, the
  fourth of user 4 and without a review, with the seeded reviews.
\<close>

definition example_store :: db where
  "example_store =
     \<lparr>spots = [listing 1 2, listing 2 1, listing 3 3, listing 4 4],
      reviews = seed_reviews,
      images = [],
      users = [],
      nextSpotId = 5,
      nextReviewId = 4\<rparr>"

definition review_body :: "rat \<Rightarrow> body" where
  "review_body n = [''review'' \<mapsto> JStr (str ''Fine''), ''stars'' \<mapsto> JNum (Finite n)]"

text \<open>The example store with, instead of the seeded reviews, one review of spot 1 for each of the given star values.\<close>

definition rated :: "int list \<Rightarrow> db" where
  "rated xs =
     example_store
       \<lparr>reviews := map (\<lambda>(i, s). \<lparr>review_id = int i, userId = int i, spotId = 1,
                                   review = JStr (str ''Fine''), stars = s\<rparr>)
                        (zip [1 ..< Suc (length xs)] xs),
        nextReviewId := int (Suc (length xs))\<rparr>"

text \<open>
  The example store after two more reviews of spot 1, with 5 stars each: three reviews
  of spot 1 among the five of the table.
\<close>

definition busy_store :: db where
  "busy_store =
     example_store
       \<lparr>reviews := seed_reviews @
          [\<lparr>review_id = 4, userId = 4, spotId = 1, review = JStr (str ''Fine''), stars = 5\<rparr>,
           \<lparr>review_id = 5, userId = 5, spotId = 1, review = JStr (str ''Fine''), stars = 5\<rparr>],
        nextReviewId := 6\<rparr>"

text \<open>
  The conversion parameter of the examples: none of their values is a string, an array or
  an object that reaches it.
\<close>

definition to_number_nan :: "jsval \<Rightarrow> jsnum" where
  "to_number_nan v = NaN"

section \<open>Facts about the rule sets\<close>

lemma check_single:
  "check f [(p, m)] b = (if p (field b f) then [] else [(f, m)])"
  by (simp add: check_def)

lemma check_pair:
  "check f [(p, m), (p', m')] b =
     (if p (field b f) then [] else [(f, m)]) @ (if p' (field b f) then [] else [(f, m')])"
  by (simp add: check_def)

lemma handleValidationErrors_Some:
  "es \<noteq> [] \<Longrightarrow> handleValidationErrors es = Some (ValidationFailed es)"
  by (simp add: handleValidationErrors_def)

lemma stars_custom_iff:
  "stars_custom v \<longleftrightarrow> (\<exists>k. 1 \<le> k \<and> k \<le> 5 \<and> v = JNum (Finite (rat_of_int k)))"
proof
  assume a: "stars_custom v"
  then obtain q where v: "v = JNum (Finite q)" and i: "rat_of_int \<lfloor>q\<rfloor> = q"
    and lo: "0 < q" and hi: "q < 6"
    by (cases v rule: isInteger.cases) (auto simp: stars_custom_def)
  from i lo hi have "1 \<le> \<lfloor>q\<rfloor>" "\<lfloor>q\<rfloor> \<le> 5"
    by linarith+
  with v i show "\<exists>k. 1 \<le> k \<and> k \<le> 5 \<and> v = JNum (Finite (rat_of_int k))"
    by metis
next
  assume "\<exists>k. 1 \<le> k \<and> k \<le> 5 \<and> v = JNum (Finite (rat_of_int k))"
  then show "stars_custom v"
    by (auto simp: stars_custom_def)
qed

lemma validateSpotCreation_None:
  "validateSpotCreation tn b = None \<longleftrightarrow> validateSpotCreation_rules tn b = []"
  by (simp add: validateSpotCreation_def handleValidationErrors_def)

lemma validateSpotCreation_rules_Nil:
  "validateSpotCreation_rules tn b = [] \<longleftrightarrow>
     truthy (field b ''address'') \<and> truthy (field b ''city'') \<and> truthy (field b ''state'') \<and>
     truthy (field b ''country'') \<and> truthy (field b ''lat'') \<and> truthy (field b ''lng'') \<and>
     truthy (field b ''name'') \<and> name_custom tn (field b ''name'') \<and>
     truthy (field b ''description'') \<and> truthy (field b ''price'') \<and>
     truthy (field b ''previewImage'')"
  by (simp add: validateSpotCreation_rules_def check_single check_pair exists_checkFalsy_def)

lemma validateSpotEdit_None:
  "validateSpotEdit tn b = None \<longleftrightarrow> validateSpotEdit_rules tn b = []"
  by (simp add: validateSpotEdit_def handleValidationErrors_def)

lemma validateSpotEdit_rules_Nil:
  "validateSpotEdit_rules tn b = [] \<longleftrightarrow>
     truthy (field b ''address'') \<and> truthy (field b ''city'') \<and> truthy (field b ''state'') \<and>
     truthy (field b ''country'') \<and> truthy (field b ''lat'') \<and> truthy (field b ''lng'') \<and>
     truthy (field b ''name'') \<and> name_custom tn (field b ''name'') \<and>
     truthy (field b ''description'') \<and> truthy (field b ''price'')"
  by (simp add: validateSpotEdit_rules_def check_single check_pair exists_checkFalsy_def)

lemma validateSpotEdit_previewImage:
  "validateSpotEdit tn (b(''previewImage'' := v)) = validateSpotEdit tn b"
  by (simp add: validateSpotEdit_def validateSpotEdit_rules_def check_def field_def)

lemma validateReviewCreation_None:
  "validateReviewCreation b = None \<longleftrightarrow>
     truthy (field b ''review'') \<and> truthy (field b ''stars'') \<and> stars_custom (field b ''stars'')"
  by (simp add: validateReviewCreation_def handleValidationErrors_def
      validateReviewCreation_rules_def check_single check_pair exists_checkFalsy_def)

section \<open>Facts about the example store\<close>

lemma spot_body_fields:
  "field spot_body ''address'' = JStr (str ''1 Main Street'')"
  "field spot_body ''city'' = JStr (str ''Springfield'')"
  "field spot_body ''state'' = JStr (str ''Oregon'')"
  "field spot_body ''country'' = JStr (str ''USA'')"
  "field spot_body ''lat'' = JNum (Finite (441 / 10))"
  "field spot_body ''lng'' = JNum (Finite (- 123))"
  "field spot_body ''name'' = JStr (str ''Cabin'')"
  "field spot_body ''description'' = JStr (str ''By the river'')"
  "field spot_body ''price'' = JNum (Finite 120)"
  "field spot_body ''previewImage'' = JStr (str ''cabin.png'')"
  by (simp_all add: spot_body_def field_def)

lemma spot_body_valid: "validateSpotCreation (\<lambda>v. NaN) spot_body = None"
  by (simp add: validateSpotCreation_None validateSpotCreation_rules_Nil spot_body_fields
      name_custom_def str_def)

lemma spot_body_valid_edit: "validateSpotEdit (\<lambda>v. NaN) spot_body = None"
  by (simp add: validateSpotEdit_None validateSpotEdit_rules_Nil spot_body_fields
      name_custom_def str_def)

lemma review_body_fields:
  "field (review_body n) ''review'' = JStr (str ''Fine'')"
  "field (review_body n) ''stars'' = JNum (Finite n)"
  by (simp_all add: review_body_def field_def)

lemma review_body_valid: "validateReviewCreation (review_body 4) = None"
proof -
  have "stars_custom (JNum (Finite (rat_of_int 4)))"
    unfolding stars_custom_iff by (intro exI[of _ 4]) simp
  then show ?thesis
    by (simp add: validateReviewCreation_None review_body_fields str_def)
qed

lemma example_spots:
  "findByPk (spots example_store) 1 = Some (listing 1 2)"
  "findByPk (spots example_store) 3 = Some (listing 3 3)"
  "findByPk (spots example_store) 4 = Some (listing 4 4)"
  "findByPk (spots example_store) 9 = None"
  by (simp_all add: example_store_def findByPk_def listing_def)

lemma example_tables:
  "reviews example_store = seed_reviews"
  "images example_store = []"
  "users example_store = []"
  "nextSpotId example_store = 5"
  "nextReviewId example_store = 4"
  by (simp_all add: example_store_def)

lemma listing_sel:
  "spot_id (listing i ow) = i"
  "ownerId (listing i ow) = ow"
  "name (listing i ow) = JStr (str ''Loft'')"
  "previewImage (listing i ow) = JStr (str ''loft.png'')"
  "createdAt (listing i ow) = 0"
  by (simp_all add: listing_def)

lemma example_invariant: "one_review_per_user_spot example_store"
  by (simp add: one_review_per_user_spot_def example_store_def seed_reviews_def)

section \<open>Facts about the handlers\<close>

lemma findByPk_Some_id: "findByPk ss k = Some s \<Longrightarrow> spot_id s = k \<and> s \<in> set ss"
  by (auto simp: findByPk_def find_Some_iff)

lemma findByPk_map:
  assumes "\<And>x. spot_id (f x) = spot_id x"
  shows "findByPk (map f ss) k = map_option f (findByPk ss k)"
  unfolding findByPk_def using assms by (induction ss) auto

lemma findByPk_filter_neq: "findByPk (filter (\<lambda>x. spot_id x \<noteq> k) ss) k = None"
  by (auto simp: findByPk_def find_None_iff)

lemma filter_remove1_distinct:
  "distinct (map spot_id ss) \<Longrightarrow> findByPk ss k = Some s \<Longrightarrow>
     filter (\<lambda>x. spot_id x \<noteq> k) ss = remove1 s ss"
proof (induction ss)
  case Nil
  then show ?case by (simp add: findByPk_def)
next
  case (Cons a ss)
  show ?case
  proof (cases "spot_id a = k")
    case True
    with Cons.prems have s: "s = a" by (simp add: findByPk_def)
    from Cons.prems(1) have "spot_id a \<notin> spot_id ` set ss" by simp
    with True have "\<forall>x \<in> set ss. spot_id x \<noteq> k" by (metis imageI)
    then have "filter (\<lambda>x. spot_id x \<noteq> k) ss = ss" by (simp add: filter_id_conv)
    with True s show ?thesis by simp
  next
    case False
    with Cons.prems have f: "findByPk ss k = Some s" by (simp add: findByPk_def)
    then have "spot_id s = k" by (simp add: findByPk_Some_id)
    with False have "a \<noteq> s" by auto
    with False Cons f show ?thesis by simp
  qed
qed

lemma update_spot_id [simp]: "spot_id (update_spot now b x) = spot_id x"
  by (simp add: update_spot_def)

lemma find_Some_ex: "\<exists>x \<in> set xs. P x \<Longrightarrow> \<exists>y. find P xs = Some y"
  by (cases "find P xs") (auto simp: find_None_iff)

lemma num_of_int_0: "num_of_int 0 = Finite 0"
  by (simp add: num_of_int_def fl_def)

lemma handler_review_cases:
  assumes "post_spot_review_handler uid sid b d = (out, d')"
  shows "(\<exists>e. out = Inl e \<and> d' = d) \<or>
         (\<exists>r rv. out = Inr r \<and> status r = 200 \<and> userId rv = uid \<and> spotId rv = sid \<and>
                 reviews d' = reviews d @ [rv] \<and> spots d' = spots d \<and>
                 (\<forall>x \<in> set (reviews d). \<not> (userId x = uid \<and> spotId x = sid)))"
proof (cases "findByPk (spots d) sid")
  case None
  with assms show ?thesis by (auto simp: post_spot_review_handler_def)
next
  case (Some spot)
  then have i: "spot_id spot = sid" by (auto dest: findByPk_Some_id)
  show ?thesis
  proof (cases "find (\<lambda>r. userId r = uid \<and> spotId r = sid) (reviews d)")
    case (Some a)
    with assms \<open>findByPk (spots d) sid = Some spot\<close> i show ?thesis
      by (auto simp: post_spot_review_handler_def)
  next
    case None
    then have n: "\<forall>x \<in> set (reviews d). \<not> (userId x = uid \<and> spotId x = sid)"
      by (simp add: find_None_iff)
    show ?thesis
    proof (cases "integer_column (field b ''stars'')")
      case None
      with assms \<open>findByPk (spots d) sid = Some spot\<close> i
        \<open>find (\<lambda>r. userId r = uid \<and> spotId r = sid) (reviews d) = None\<close>
      show ?thesis by (auto simp: post_spot_review_handler_def)
    next
      case (Some k)
      with assms \<open>findByPk (spots d) sid = Some spot\<close> i
        \<open>find (\<lambda>r. userId r = uid \<and> spotId r = sid) (reviews d) = None\<close> n
      show ?thesis
        by (auto simp: post_spot_review_handler_def Let_def)
    qed
  qed
qed

lemma post_spot_review_cases:
  assumes "post_spot_review uid sid b d = (out, d')"
  shows "(\<exists>e. out = Inl e \<and> d' = d) \<or>
         (\<exists>r rv. out = Inr r \<and> status r = 200 \<and> userId rv = uid \<and> spotId rv = sid \<and>
                 reviews d' = reviews d @ [rv] \<and> spots d' = spots d \<and>
                 (\<forall>x \<in> set (reviews d). \<not> (userId x = uid \<and> spotId x = sid)))"
proof (cases "validateReviewCreation b")
  case None
  with assms have "post_spot_review_handler uid sid b d = (out, d')"
    by (simp add: post_spot_review_def)
  then show ?thesis by (rule handler_review_cases)
next
  case (Some e)
  with assms show ?thesis by (auto simp: post_spot_review_def)
qed

lemma other_routes_reviews:
  assumes "route tn rq d = (out, d')" and "\<forall>uid sid b. rq \<noteq> PostSpotReview uid sid b"
  shows "reviews d' = reviews d"
  using assms
  by (cases rq)
     (auto simp: get_spots_def get_spot_def post_spots_def post_spots_handler_def Let_def
                 put_spot_def put_spot_handler_def delete_spot_def get_spot_reviews_def
           split: option.splits if_splits)

lemma route_step:
  assumes "route tn rq d = (out, d')" and "one_review_per_user_spot d"
  shows "one_review_per_user_spot d' \<and>
         pair_count u s d' = pair_count u s d + (if review_created u s rq out then 1 else 0)"
proof (cases "\<exists>uid sid b. rq = PostSpotReview uid sid b")
  case False
  then have n: "\<forall>uid sid b. rq \<noteq> PostSpotReview uid sid b" by simp
  with assms(1) have r: "reviews d' = reviews d" by (rule other_routes_reviews)
  from n have "\<not> review_created u s rq out" by (cases rq) auto
  with r assms(2) show ?thesis
    by (simp add: one_review_per_user_spot_def pair_count_def)
next
  case True
  then obtain uid sid b where rq: "rq = PostSpotReview uid sid b" by blast
  with assms(1) have "post_spot_review uid sid b d = (out, d')" by simp
  from post_spot_review_cases[OF this] show ?thesis
  proof
    assume "\<exists>e. out = Inl e \<and> d' = d"
    with rq assms(2) show ?thesis by auto
  next
    assume "\<exists>r rv. out = Inr r \<and> status r = 200 \<and> userId rv = uid \<and> spotId rv = sid \<and>
                 reviews d' = reviews d @ [rv] \<and> spots d' = spots d \<and>
                 (\<forall>x \<in> set (reviews d). \<not> (userId x = uid \<and> spotId x = sid))"
    then obtain r rv where o: "out = Inr r" and rv: "userId rv = uid" "spotId rv = sid"
      and d': "reviews d' = reviews d @ [rv]"
      and fresh: "\<forall>x \<in> set (reviews d). \<not> (userId x = uid \<and> spotId x = sid)"
      by blast
    from fresh rv have "(userId rv, spotId rv) \<notin> (\<lambda>r. (userId r, spotId r)) ` set (reviews d)"
      by auto
    with assms(2) d' have inv: "one_review_per_user_spot d'"
      by (simp add: one_review_per_user_spot_def)
    from d' rv rq o have "pair_count u s d' =
        pair_count u s d + (if review_created u s rq out then 1 else 0)"
      by (auto simp: pair_count_def)
    with inv show ?thesis by simp
  qed
qed

lemma run_count:
  "one_review_per_user_spot d \<Longrightarrow> run tn rs d = (outs, d') \<Longrightarrow>
     one_review_per_user_spot d' \<and>
     pair_count u s d' = pair_count u s d + reviews_created u s rs outs"
proof (induction rs arbitrary: d outs)
  case Nil
  then show ?case by (simp add: reviews_created_def)
next
  case (Cons rq rs)
  obtain out d1 where r1: "route tn rq d = (out, d1)" by (cases "route tn rq d")
  obtain outs1 d2 where r2: "run tn rs d1 = (outs1, d2)" by (cases "run tn rs d1")
  from Cons.prems(2) r1 r2 have e: "outs = out # outs1" "d' = d2" by simp_all
  from route_step[OF r1 Cons.prems(1)] have
    i1: "one_review_per_user_spot d1" and
    c1: "pair_count u s d1 = pair_count u s d + (if review_created u s rq out then 1 else 0)"
    by simp_all
  from r2 e have r2': "run tn rs d1 = (outs1, d')" by simp
  from Cons.IH[OF i1 r2'] e have
    i2: "one_review_per_user_spot d2" and
    c2: "pair_count u s d2 = pair_count u s d1 + reviews_created u s rs outs1"
    by simp_all
  from e i2 c1 c2 show ?case by (simp add: reviews_created_def)
qed

lemma pair_count_le_1:
  "one_review_per_user_spot d \<Longrightarrow> pair_count u s d \<le> 1"
proof -
  assume a: "one_review_per_user_spot d"
  have "distinct (map f xs) \<Longrightarrow> length (filter (\<lambda>r. f r = k) xs) \<le> 1" for f :: "review_row \<Rightarrow> int \<times> int" and xs k
  proof (induction xs)
    case Nil
    then show ?case by simp
  next
    case (Cons a xs)
    show ?case
    proof (cases "f a = k")
      case True
      with Cons.prems have "\<forall>x \<in> set xs. f x \<noteq> k" by (metis distinct.simps(2) imageI list.simps(9) set_map)
      then have "filter (\<lambda>r. f r = k) xs = []" by (simp add: filter_empty_conv)
      with True show ?thesis by simp
    next
      case False
      with Cons show ?thesis by simp
    qed
  qed
  from this[of "\<lambda>r. (userId r, spotId r)" "reviews d" "(u, s)"] a
  show ?thesis by (simp add: pair_count_def one_review_per_user_spot_def)
qed

section \<open>The claims\<close>

text \<open>
  Claim C1. For PUT and DELETE on \<open>/spots/:spotId\<close>, a missing spot or a spot whose
  \<open>ownerId\<close> is not the user's id gives 404 and no write; only the owner may change or
  delete a spot. The guard of both handlers compares the spot's own id with the user's
  id. On the example store spot 1 belongs to user 2: user 1, who does not own it, edits
  and deletes it, and user 2, who owns it, gets 404 for both.
\<close>

theorem guard_compares_spot_id_with_user_id:
  "findByPk (spots example_store) 1 = Some (listing 1 2) \<and>
   ownerId (listing 1 2) = 2 \<and>
   (\<exists>r d'. put_spot (\<lambda>v. NaN) 9 1 1 spot_body example_store = (Inr r, d') \<and>
           status r = 200 \<and>
           map_option name (findByPk (spots d') 1) = Some (JStr (str ''Cabin''))) \<and>
   (\<exists>r d'. delete_spot 1 1 example_store = (Inr r, d') \<and>
           status r = 200 \<and> findByPk (spots d') 1 = None) \<and>
   put_spot (\<lambda>v. NaN) 9 2 1 spot_body example_store = (Inl spot_not_found, example_store) \<and>
   delete_spot 2 1 example_store = (Inl spot_not_found, example_store)"
  by (simp add: example_spots put_spot_def spot_body_valid_edit put_spot_handler_def
      delete_spot_def listing_sel)
     (simp add: example_store_def listing_def findByPk_def update_spot_def spot_body_fields)

lemma first_review_succeeds:
  assumes "findByPk (spots d) sid = Some spot"
    and "\<forall>rv \<in> set (reviews d). userId rv \<noteq> uid \<or> spotId rv \<noteq> sid"
    and "validateReviewCreation b = None"
  shows "\<exists>r d1. post_spot_review uid sid b d = (Inr r, d1)"
proof -
  from assms(1) have i: "spot_id spot = sid" by (auto dest: findByPk_Some_id)
  from assms(2) have n: "find (\<lambda>r. userId r = uid \<and> spotId r = sid) (reviews d) = None"
    by (auto simp: find_None_iff)
  from assms(3) have "stars_custom (field b ''stars'')"
    by (simp add: validateReviewCreation_None)
  then obtain k where "field b ''stars'' = JNum (Finite (rat_of_int k))"
    unfolding stars_custom_iff by blast
  then have c: "integer_column (field b ''stars'') = Some k"
    by (simp add: integer_column_def)
  from assms(1,3) i n c show ?thesis
    by (simp add: post_spot_review_def post_spot_review_handler_def Let_def)
qed

lemma later_review_outcome:
  assumes "\<exists>rv \<in> set (reviews d2). userId rv = uid \<and> spotId rv = sid"
  shows "post_spot_review uid sid b' d2 =
           (Inl (case validateReviewCreation b' of
                   Some err \<Rightarrow> err
                 | None \<Rightarrow> (case findByPk (spots d2) sid of
                               None \<Rightarrow> spot_not_found
                             | Some sp \<Rightarrow> already_reviewed)), d2)"
proof (cases "validateReviewCreation b'")
  case (Some err)
  then show ?thesis by (simp add: post_spot_review_def)
next
  case None
  show ?thesis
  proof (cases "findByPk (spots d2) sid")
    case n: None
    with None show ?thesis
      by (simp add: post_spot_review_def post_spot_review_handler_def)
  next
    case (Some sp)
    then have i: "spot_id sp = sid" by (auto dest: findByPk_Some_id)
    from assms obtain y where
      "find (\<lambda>r. userId r = uid \<and> spotId r = sid) (reviews d2) = Some y"
      using find_Some_ex[of "reviews d2" "\<lambda>r. userId r = uid \<and> spotId r = sid"] by auto
    with None Some i show ?thesis
      by (simp add: post_spot_review_def post_spot_review_handler_def)
  qed
qed

lemma validation_status:
  "validateReviewCreation b = Some err \<Longrightarrow> status_of err = 400"
  by (auto simp: validateReviewCreation_def handleValidationErrors_def split: if_splits)

lemma route_reviews_grow:
  assumes "route tn rq d = (out, d')"
  shows "set (reviews d) \<subseteq> set (reviews d')"
proof (cases "\<exists>uid sid b. rq = PostSpotReview uid sid b")
  case False
  then have "\<forall>uid sid b. rq \<noteq> PostSpotReview uid sid b" by simp
  with assms have "reviews d' = reviews d" by (rule other_routes_reviews)
  then show ?thesis by simp
next
  case True
  then obtain uid sid b where "rq = PostSpotReview uid sid b" by blast
  with assms have "post_spot_review uid sid b d = (out, d')" by simp
  from post_spot_review_cases[OF this] show ?thesis by auto
qed

lemma run_reviews_grow:
  "run tn rs d = (outs, d') \<Longrightarrow> set (reviews d) \<subseteq> set (reviews d')"
proof (induction rs arbitrary: d outs)
  case Nil
  then show ?case by simp
next
  case (Cons rq rs)
  obtain out d1 where r1: "route tn rq d = (out, d1)" by (cases "route tn rq d")
  obtain outs1 d2 where r2: "run tn rs d1 = (outs1, d2)" by (cases "run tn rs d1")
  from Cons.prems r1 r2 have e: "d' = d2" by simp
  from r2 e have "run tn rs d1 = (outs1, d')" by simp
  then have "set (reviews d1) \<subseteq> set (reviews d')" by (rule Cons.IH)
  moreover from r1 have "set (reviews d) \<subseteq> set (reviews d1)" by (rule route_reviews_grow)
  ultimately show ?case by simp
qed

text \<open>
  Claim C2, as the code has it. Under sequential execution at most one POST
  \<open>/spots/:spotId/reviews\<close> by a user for a spot succeeds. A valid call for an existing
  spot that the user has not reviewed succeeds; a call that succeeds answers 200 and
  appends one review of that user for that spot. Every later call by the same user for
  the same spot, whatever requests came in between, fails and leaves the store as it
  is: with the rule set's error, 400, when the body does not pass it; otherwise with 404
  when the spot is no longer there; otherwise with 403 "User already has a review for
  this spot". Over any sequence of requests from a store with at most one review for
  each user and spot, the store keeps that property, and at most one request creates a
  review by the user for the spot.
\<close>

theorem one_review_per_user_and_spot:
  "(findByPk (spots d) sid = Some spot \<and>
    (\<forall>rv \<in> set (reviews d). userId rv \<noteq> uid \<or> spotId rv \<noteq> sid) \<and>
    validateReviewCreation b = None \<longrightarrow>
      (\<exists>r d1. post_spot_review uid sid b d = (Inr r, d1))) \<and>
   (post_spot_review uid sid b d = (Inr r, d1) \<and> run tn mid d1 = (outs1, d2) \<longrightarrow>
      status r = 200 \<and>
      (\<exists>rv. reviews d1 = reviews d @ [rv] \<and> userId rv = uid \<and> spotId rv = sid) \<and>
      (\<forall>b'. post_spot_review uid sid b' d2 =
              (Inl (case validateReviewCreation b' of
                      Some err \<Rightarrow> err
                    | None \<Rightarrow> (case findByPk (spots d2) sid of
                                  None \<Rightarrow> spot_not_found
                                | Some sp \<Rightarrow> already_reviewed)), d2)) \<and>
      (\<forall>b' err. validateReviewCreation b' = Some err \<longrightarrow> status_of err = 400) \<and>
      status_of spot_not_found = 404 \<and>
      status_of already_reviewed = 403) \<and>
   (one_review_per_user_spot d \<and> run tn rs d = (outs, d') \<longrightarrow>
      one_review_per_user_spot d' \<and> reviews_created u s rs outs \<le> 1)"
proof (intro conjI impI allI)
  assume a: "findByPk (spots d) sid = Some spot \<and>
    (\<forall>rv \<in> set (reviews d). userId rv \<noteq> uid \<or> spotId rv \<noteq> sid) \<and>
    validateReviewCreation b = None"
  then show "\<exists>r d1. post_spot_review uid sid b d = (Inr r, d1)"
    using first_review_succeeds[of d sid spot uid b] by blast
next
  assume a: "post_spot_review uid sid b d = (Inr r, d1) \<and> run tn mid d1 = (outs1, d2)"
  then have p: "post_spot_review uid sid b d = (Inr r, d1)"
    and m: "run tn mid d1 = (outs1, d2)" by simp_all
  from post_spot_review_cases[OF p] obtain rv where
    st: "status r = 200" and rv: "userId rv = uid" "spotId rv = sid"
    and d1: "reviews d1 = reviews d @ [rv]"
    by auto
  show "status r = 200" by (rule st)
  from d1 rv show "\<exists>rv. reviews d1 = reviews d @ [rv] \<and> userId rv = uid \<and> spotId rv = sid"
    by blast
  from d1 have "rv \<in> set (reviews d1)" by simp
  with run_reviews_grow[OF m] have "rv \<in> set (reviews d2)" by blast
  with rv have "\<exists>rv \<in> set (reviews d2). userId rv = uid \<and> spotId rv = sid" by blast
  then show "post_spot_review uid sid b' d2 =
              (Inl (case validateReviewCreation b' of
                      Some err \<Rightarrow> err
                    | None \<Rightarrow> (case findByPk (spots d2) sid of
                                  None \<Rightarrow> spot_not_found
                                | Some sp \<Rightarrow> already_reviewed)), d2)" for b'
    by (rule later_review_outcome)
next
  fix b' err assume "validateReviewCreation b' = Some err"
  then show "status_of err = 400" by (rule validation_status)
next
  show "status_of spot_not_found = 404" by (simp add: spot_not_found_def)
next
  show "status_of already_reviewed = 403" by (simp add: already_reviewed_def)
next
  assume a: "one_review_per_user_spot d \<and> run tn rs d = (outs, d')"
  then have r: "one_review_per_user_spot d' \<and>
     pair_count u s d' = pair_count u s d + reviews_created u s rs outs"
    using run_count[of d tn rs outs d' u s] by simp
  then show "one_review_per_user_spot d'" by simp
  from r pair_count_le_1[of d' u s] show "reviews_created u s rs outs \<le> 1" by simp
qed

lemma review_body_6_invalid:
  "\<exists>es. validateReviewCreation (review_body 6) = Some (ValidationFailed es)"
proof -
  have "\<not> stars_custom (JNum (Finite 6))"
    unfolding stars_custom_iff by simp
  then have "validateReviewCreation (review_body 6) \<noteq> None"
    by (simp add: validateReviewCreation_None review_body_fields)
  then show ?thesis
    by (auto simp: validateReviewCreation_def handleValidationErrors_def split: if_splits)
qed

lemma example_first_review:
  assumes "findByPk (spots example_store) sid = Some spot"
    and "\<forall>rv \<in> set seed_reviews. userId rv \<noteq> uid \<or> spotId rv \<noteq> sid"
  shows "\<exists>r d1. post_spot_review uid sid (review_body 4) example_store = (Inr r, d1) \<and>
           status r = 200 \<and> spots d1 = spots example_store \<and>
           (\<exists>rv \<in> set (reviews d1). userId rv = uid \<and> spotId rv = sid)"
proof -
  from assms(2) have "\<forall>rv \<in> set (reviews example_store). userId rv \<noteq> uid \<or> spotId rv \<noteq> sid"
    by (simp add: example_tables)
  from first_review_succeeds[OF assms(1) this review_body_valid] obtain r d1 where
    e: "post_spot_review uid sid (review_body 4) example_store = (Inr r, d1)" by blast
  from post_spot_review_cases[OF e] obtain rv where
    "status r = 200" "userId rv = uid" "spotId rv = sid"
    "reviews d1 = reviews example_store @ [rv]" "spots d1 = spots example_store"
    by auto
  with e show ?thesis by auto
qed

text \<open>
  Not every later call answers 403. On the example store user 3 reviews spot 3, deletes
  it and calls again: the answers are 200, 200 and 404. User 2 reviews spot 1 and calls
  again with 6 stars: the answers are 200 and 400.
\<close>

theorem later_call_not_always_403:
  "map (case_sum status_of status)
     (fst (run to_number_nan
             [PostSpotReview 3 3 (review_body 4), DeleteSpot 3 3, PostSpotReview 3 3 (review_body 4)]
             example_store)) = [200, 200, 404] \<and>
   map (case_sum status_of status)
     (fst (run to_number_nan
             [PostSpotReview 2 1 (review_body 4), PostSpotReview 2 1 (review_body 6)]
             example_store)) = [200, 400]"
proof
  have "\<forall>rv \<in> set seed_reviews. userId rv \<noteq> 3 \<or> spotId rv \<noteq> 3"
    by (simp add: seed_reviews_def)
  from example_first_review[OF example_spots(2) this] obtain r d1 where
    e: "post_spot_review 3 3 (review_body 4) example_store = (Inr r, d1)" and
    st: "status r = 200" and sp: "spots d1 = spots example_store" and
    rv: "\<exists>rv \<in> set (reviews d1). userId rv = 3 \<and> spotId rv = 3"
    by blast
  define d2 where "d2 = d1\<lparr>spots := filter (\<lambda>x. spot_id x \<noteq> 3) (spots d1)\<rparr>"
  from sp have dl: "delete_spot 3 3 d1 =
      (Inr \<lparr>status = 200, json = Deleted ''Successfully deleted'' 200\<rparr>, d2)"
    by (simp add: delete_spot_def example_spots listing_sel d2_def)
  have n: "findByPk (spots d2) 3 = None" by (simp add: d2_def findByPk_filter_neq)
  from rv have "\<exists>rv \<in> set (reviews d2). userId rv = 3 \<and> spotId rv = 3" by (simp add: d2_def)
  from later_review_outcome[OF this, of "review_body 4"]
  have l: "post_spot_review 3 3 (review_body 4) d2 = (Inl spot_not_found, d2)"
    by (simp add: review_body_valid n)
  from e dl l st show "map (case_sum status_of status)
     (fst (run to_number_nan
             [PostSpotReview 3 3 (review_body 4), DeleteSpot 3 3, PostSpotReview 3 3 (review_body 4)]
             example_store)) = [200, 200, 404]"
    by (simp add: spot_not_found_def)
next
  have "\<forall>rv \<in> set seed_reviews. userId rv \<noteq> 2 \<or> spotId rv \<noteq> 1"
    by (simp add: seed_reviews_def)
  from example_first_review[OF example_spots(1) this] obtain r d1 where
    e: "post_spot_review 2 1 (review_body 4) example_store = (Inr r, d1)" and
    st: "status r = 200" and
    rv: "\<exists>rv \<in> set (reviews d1). userId rv = 2 \<and> spotId rv = 1"
    by blast
  from review_body_6_invalid obtain es where
    v: "validateReviewCreation (review_body 6) = Some (ValidationFailed es)" by blast
  from later_review_outcome[OF rv, of "review_body 6"] v
  have l: "post_spot_review 2 1 (review_body 6) d1 = (Inl (ValidationFailed es), d1)"
    by simp
  from e l st show "map (case_sum status_of status)
     (fst (run to_number_nan
             [PostSpotReview 2 1 (review_body 4), PostSpotReview 2 1 (review_body 6)]
             example_store)) = [200, 400]"
    by simp
qed

text \<open>
  On the example store user 3 reviews spot 3 with answer 200. Right after, a valid call
  answers 403 and a call with 6 stars the rule set's error; after the spot is deleted, a
  valid call answers 404. One review was created.
\<close>

theorem one_review_per_user_and_spot_witness:
  "\<exists>r d1 del d2 es.
     post_spot_review 3 3 (review_body 4) example_store = (Inr r, d1) \<and>
     status r = 200 \<and>
     post_spot_review 3 3 (review_body 4) d1 = (Inl already_reviewed, d1) \<and>
     post_spot_review 3 3 (review_body 6) d1 = (Inl (ValidationFailed es), d1) \<and>
     status_of (ValidationFailed es) = 400 \<and>
     run to_number_nan [DeleteSpot 3 3] d1 = ([Inr del], d2) \<and>
     post_spot_review 3 3 (review_body 4) d2 = (Inl spot_not_found, d2) \<and>
     one_review_per_user_spot d2 \<and>
     reviews_created 3 3
       [PostSpotReview 3 3 (review_body 4), DeleteSpot 3 3, PostSpotReview 3 3 (review_body 4)]
       [Inr r, Inr del, Inl spot_not_found] \<le> 1"
proof -
  have "findByPk (spots example_store) 3 = Some (listing 3 3) \<and>
      (\<forall>rv \<in> set (reviews example_store). userId rv \<noteq> 3 \<or> spotId rv \<noteq> 3) \<and>
      validateReviewCreation (review_body 4) = None"
    by (simp add: example_spots review_body_valid example_tables seed_reviews_def)
  note one_review_per_user_and_spot[of example_store 3 "listing 3 3" 3 "review_body 4",
      THEN conjunct1, THEN mp, OF this]
  then obtain r d1 where e: "post_spot_review 3 3 (review_body 4) example_store = (Inr r, d1)"
    by blast
  from post_spot_review_cases[OF e] have sp: "spots d1 = spots example_store" by auto
  define del where "del = \<lparr>status = 200, json = Deleted ''Successfully deleted'' 200\<rparr>"
  define d2 where "d2 = d1\<lparr>spots := filter (\<lambda>x. spot_id x \<noteq> 3) (spots d1)\<rparr>"
  from sp have dl: "delete_spot 3 3 d1 = (Inr del, d2)"
    by (simp add: delete_spot_def example_spots listing_sel d2_def del_def)
  then have m: "run to_number_nan [DeleteSpot 3 3] d1 = ([Inr del], d2)" by simp
  have m0: "run to_number_nan [] d1 = ([], d1)" by simp
  from e m0 have "post_spot_review 3 3 (review_body 4) example_store = (Inr r, d1) \<and>
      run to_number_nan [] d1 = ([], d1)" by (rule conjI)
  note now = one_review_per_user_and_spot[of example_store 3 "listing 3 3" 3 "review_body 4"
      r d1 to_number_nan "[]" "[]" d1,
      THEN conjunct2, THEN conjunct1, THEN mp, OF this]
  from e m have "post_spot_review 3 3 (review_body 4) example_store = (Inr r, d1) \<and>
      run to_number_nan [DeleteSpot 3 3] d1 = ([Inr del], d2)" by (rule conjI)
  note later = one_review_per_user_and_spot[of example_store 3 "listing 3 3" 3 "review_body 4"
      r d1 to_number_nan "[DeleteSpot 3 3]" "[Inr del]" d2,
      THEN conjunct2, THEN conjunct1, THEN mp, OF this]
  from now have st: "status r = 200" by (rule conjunct1)
  from now have o1: "\<forall>b'. post_spot_review 3 3 b' d1 =
              (Inl (case validateReviewCreation b' of
                      Some err \<Rightarrow> err
                    | None \<Rightarrow> (case findByPk (spots d1) 3 of
                                  None \<Rightarrow> spot_not_found
                                | Some sp \<Rightarrow> already_reviewed)), d1)"
    by (elim conjE)
  from later have o2: "\<forall>b'. post_spot_review 3 3 b' d2 =
              (Inl (case validateReviewCreation b' of
                      Some err \<Rightarrow> err
                    | None \<Rightarrow> (case findByPk (spots d2) 3 of
                                  None \<Rightarrow> spot_not_found
                                | Some sp \<Rightarrow> already_reviewed)), d2)"
    by (elim conjE)
  from o1 sp have a403: "post_spot_review 3 3 (review_body 4) d1 = (Inl already_reviewed, d1)"
    by (simp add: review_body_valid example_spots)
  from review_body_6_invalid obtain es where
    v: "validateReviewCreation (review_body 6) = Some (ValidationFailed es)" by blast
  with o1 have a400: "post_spot_review 3 3 (review_body 6) d1 = (Inl (ValidationFailed es), d1)"
    by simp
  have n: "findByPk (spots d2) 3 = None" by (simp add: d2_def findByPk_filter_neq)
  with o2 have a404: "post_spot_review 3 3 (review_body 4) d2 = (Inl spot_not_found, d2)"
    by (simp add: review_body_valid)
  let ?rs = "[PostSpotReview 3 3 (review_body 4), DeleteSpot 3 3, PostSpotReview 3 3 (review_body 4)]"
  let ?outs = "[Inr r, Inr del, Inl spot_not_found]"
  from e dl a404 have rn: "run to_number_nan ?rs example_store = (?outs, d2)"
    by simp
  from example_invariant rn have "one_review_per_user_spot example_store \<and>
      run to_number_nan ?rs example_store = (?outs, d2)" by (rule conjI)
  note one_review_per_user_and_spot[of example_store 3 "listing 3 3" 3 "review_body 4"
      r d1 to_number_nan "[]" "[]" d1 ?rs ?outs d2 3 3,
      THEN conjunct2, THEN conjunct2, THEN mp, OF this]
  then have i: "one_review_per_user_spot d2" and c: "reviews_created 3 3 ?rs ?outs \<le> 1"
    by (rule conjunct1, rule conjunct2)
  have s400: "status_of (ValidationFailed es) = 400" by simp
  show ?thesis
    apply (rule exI[of _ r])
    apply (rule exI[of _ d1])
    apply (rule exI[of _ del])
    apply (rule exI[of _ d2])
    apply (rule exI[of _ es])
    using e st a403 a400 s400 m a404 i c by (intro conjI)
qed

text \<open>
  Claim C4. For an existing spot with no review, GET \<open>/spots/:id\<close> attaches
  \<open>numReviews\<close> 0 and computes \<open>avgStarRating\<close> by the division 0/0, with no special case:
  the sum is null, the quotient is NaN, and the field is the string that \<open>toFixed\<close> makes
  of NaN, neither null nor a number.
\<close>

theorem get_spot_no_reviews:
  assumes "findByPk (spots d) sid = Some spot" and "reviews_of d sid = []"
  shows "numReviews d sid = 0 \<and> sumOfStars d sid = None \<and>
         js_div (Finite 0) (num_of_int (numReviews d sid)) = NaN \<and>
         avgStarRating d sid = Decimal ''NaN'' \<and>
         (\<exists>imgs owner. get_spot sid d =
            (Inr \<lparr>status = 200, json = SpotDetails spot imgs owner 0 (Decimal ''NaN'')\<rparr>, d))"
proof -
  from assms(2) have n: "numReviews d sid = 0" and s: "sumOfStars d sid = None"
    by (simp_all add: numReviews_def sumOfStars_def)
  then have a: "avgStarRating d sid = Decimal ''NaN''"
    by (simp add: avgStarRating_def num_of_int_0)
  with n s assms(1) show ?thesis
    by (simp add: get_spot_def num_of_int_0)
qed

theorem get_spot_no_reviews_witness:
  "findByPk (spots example_store) 4 = Some (listing 4 4) \<and>
   reviews_of example_store 4 = [] \<and>
   numReviews example_store 4 = 0 \<and>
   avgStarRating example_store 4 = Decimal ''NaN''"
proof -
  have r: "reviews_of example_store 4 = []"
    by (simp add: reviews_of_def example_tables seed_reviews_def)
  from get_spot_no_reviews[OF example_spots(3) r] r example_spots(3) show ?thesis
    by simp
qed

text \<open>
  Claim C5. The review rule set rejects, with ValidationFailed and status 400 and before
  the handler runs, every body whose \<open>stars\<close> is not an integer from 1 to 5, and every
  body whose \<open>review\<close> is missing or falsy; a body with a non-empty review text and an
  integer \<open>stars\<close> strictly between 0 and 6 passes and reaches the handler.
\<close>

theorem review_rule_set:
  "(\<not> (\<exists>k. 1 \<le> k \<and> k \<le> 5 \<and> field b ''stars'' = JNum (Finite (rat_of_int k))) \<longrightarrow>
      (\<exists>es. post_spot_review uid sid b d = (Inl (ValidationFailed es), d) \<and>
            status_of (ValidationFailed es) = 400 \<and>
            (''stars'', ''Stars must be an integer from 1 to 5'') \<in> set es)) \<and>
   (\<not> truthy (field b ''review'') \<longrightarrow>
      (\<exists>es. post_spot_review uid sid b d = (Inl (ValidationFailed es), d) \<and>
            status_of (ValidationFailed es) = 400 \<and>
            (''review'', ''Review text is required'') \<in> set es)) \<and>
   (field b ''review'' = JStr s \<and> s \<noteq> [] \<and>
    field b ''stars'' = JNum (Finite (rat_of_int k)) \<and> 0 < k \<and> k < 6 \<longrightarrow>
      validateReviewCreation b = None \<and>
      post_spot_review uid sid b d = post_spot_review_handler uid sid b d)"
proof (intro conjI impI)
  assume "\<not> (\<exists>k. 1 \<le> k \<and> k \<le> 5 \<and> field b ''stars'' = JNum (Finite (rat_of_int k)))"
  then have n: "\<not> stars_custom (field b ''stars'')"
    by (simp add: stars_custom_iff)
  let ?es = "validateReviewCreation_rules b"
  from n have m: "(''stars'', ''Stars must be an integer from 1 to 5'') \<in> set ?es"
    by (simp add: validateReviewCreation_rules_def check_single check_pair)
  then have "?es \<noteq> []" by auto
  then have "post_spot_review uid sid b d = (Inl (ValidationFailed ?es), d)"
    by (simp add: post_spot_review_def validateReviewCreation_def handleValidationErrors_Some)
  with m show "\<exists>es. post_spot_review uid sid b d = (Inl (ValidationFailed es), d) \<and>
            status_of (ValidationFailed es) = 400 \<and>
            (''stars'', ''Stars must be an integer from 1 to 5'') \<in> set es"
    by auto
next
  assume n: "\<not> truthy (field b ''review'')"
  let ?es = "validateReviewCreation_rules b"
  from n have m: "(''review'', ''Review text is required'') \<in> set ?es"
    by (simp add: validateReviewCreation_rules_def check_single check_pair exists_checkFalsy_def)
  then have "?es \<noteq> []" by auto
  then have "post_spot_review uid sid b d = (Inl (ValidationFailed ?es), d)"
    by (simp add: post_spot_review_def validateReviewCreation_def handleValidationErrors_Some)
  with m show "\<exists>es. post_spot_review uid sid b d = (Inl (ValidationFailed es), d) \<and>
            status_of (ValidationFailed es) = 400 \<and>
            (''review'', ''Review text is required'') \<in> set es"
    by auto
next
  assume a: "field b ''review'' = JStr s \<and> s \<noteq> [] \<and>
    field b ''stars'' = JNum (Finite (rat_of_int k)) \<and> 0 < k \<and> k < 6"
  then have "stars_custom (field b ''stars'')"
    by (auto simp: stars_custom_iff)
  moreover from a have "truthy (field b ''stars'')" "truthy (field b ''review'')"
    by auto
  ultimately show v: "validateReviewCreation b = None"
    by (simp add: validateReviewCreation_None)
  then show "post_spot_review uid sid b d = post_spot_review_handler uid sid b d"
    by (simp add: post_spot_review_def)
qed

text \<open>
  Bodies with \<open>stars\<close> 6, with \<open>stars\<close> 9/2 and without \<open>review\<close> are rejected; the body
  with the review "Fine" and 4 stars passes.
\<close>

theorem review_rule_set_witness:
  "(\<exists>es. post_spot_review 2 1 (review_body 6) example_store =
           (Inl (ValidationFailed es), example_store) \<and>
         (''stars'', ''Stars must be an integer from 1 to 5'') \<in> set es) \<and>
   (\<exists>es. post_spot_review 2 1 (review_body (9 / 2)) example_store =
           (Inl (ValidationFailed es), example_store) \<and>
         (''stars'', ''Stars must be an integer from 1 to 5'') \<in> set es) \<and>
   (\<exists>es. post_spot_review 2 1 [''stars'' \<mapsto> JNum (Finite 4)] example_store =
           (Inl (ValidationFailed es), example_store) \<and>
         (''review'', ''Review text is required'') \<in> set es) \<and>
   validateReviewCreation (review_body 4) = None"
proof -
  have h6: "\<not> (\<exists>k. 1 \<le> k \<and> k \<le> 5 \<and>
      field (review_body 6) ''stars'' = JNum (Finite (rat_of_int k)))"
    by (simp add: review_body_fields)
  have h92: "\<not> (\<exists>k. 1 \<le> k \<and> k \<le> 5 \<and>
      field (review_body (9 / 2)) ''stars'' = JNum (Finite (rat_of_int k)))"
  proof
    assume "\<exists>k. 1 \<le> k \<and> k \<le> 5 \<and>
      field (review_body (9 / 2)) ''stars'' = JNum (Finite (rat_of_int k))"
    then obtain k :: int where "9 / 2 = rat_of_int k"
      by (auto simp: review_body_fields)
    then have "rat_of_int (2 * k) = rat_of_int 9" by simp
    then have "2 * k = 9" by (simp only: of_int_eq_iff)
    then show False by presburger
  qed
  have hr: "\<not> truthy (field [''stars'' \<mapsto> JNum (Finite 4)] ''review'')"
    by (simp add: field_def)
  have h4: "field (review_body 4) ''review'' = JStr (str ''Fine'') \<and> str ''Fine'' \<noteq> [] \<and>
      field (review_body 4) ''stars'' = JNum (Finite (rat_of_int 4)) \<and> (0::int) < 4 \<and> (4::int) < 6"
    by (simp add: review_body_fields str_def)
  note p6 = review_rule_set[of "review_body 6" 2 1 example_store,
      THEN conjunct1, THEN mp, OF h6]
  note p92 = review_rule_set[of "review_body (9 / 2)" 2 1 example_store,
      THEN conjunct1, THEN mp, OF h92]
  note pr = review_rule_set[of "[''stars'' \<mapsto> JNum (Finite 4)]" 2 1 example_store,
      THEN conjunct2, THEN conjunct1, THEN mp, OF hr]
  note p4 = review_rule_set[of "review_body 4" 2 1 example_store "str ''Fine''" 4,
      THEN conjunct2, THEN conjunct2, THEN mp, OF h4, THEN conjunct1]
  from p6 have a: "\<exists>es. post_spot_review 2 1 (review_body 6) example_store =
           (Inl (ValidationFailed es), example_store) \<and>
         (''stars'', ''Stars must be an integer from 1 to 5'') \<in> set es"
    by blast
  from p92 have b: "\<exists>es. post_spot_review 2 1 (review_body (9 / 2)) example_store =
           (Inl (ValidationFailed es), example_store) \<and>
         (''stars'', ''Stars must be an integer from 1 to 5'') \<in> set es"
    by blast
  from pr have c: "\<exists>es. post_spot_review 2 1 [''stars'' \<mapsto> JNum (Finite 4)] example_store =
           (Inl (ValidationFailed es), example_store) \<and>
         (''review'', ''Review text is required'') \<in> set es"
    by blast
  from a b c p4 show ?thesis by (intro conjI)
qed

text \<open>
  Claim C6. Spot creation rejects, with ValidationFailed (400) and the message "Name must
  be less than 50 characters", every body whose \<open>name\<close> has length 50 or more; a \<open>name\<close>
  that is not falsy and has a length below 50 leaves no error on the name field.
\<close>

theorem spot_name_rule:
  "(get_length (field b ''name'') = Some (JNum (Finite q)) \<and> 50 \<le> q \<longrightarrow>
      (\<exists>es. post_spots tn now uid b d = (Inl (ValidationFailed es), d) \<and>
            status_of (ValidationFailed es) = 400 \<and>
            (''name'', ''Name must be less than 50 characters'') \<in> set es)) \<and>
   (truthy (field b ''name'') \<and> get_length (field b ''name'') = Some (JNum (Finite q)) \<and> q < 50 \<longrightarrow>
      (\<forall>m. (''name'', m) \<notin> set (validateSpotCreation_rules tn b)))"
proof (intro conjI impI)
  assume a: "get_length (field b ''name'') = Some (JNum (Finite q)) \<and> 50 \<le> q"
  then have n: "\<not> name_custom tn (field b ''name'')"
    by (simp add: name_custom_def)
  let ?es = "validateSpotCreation_rules tn b"
  from n have m: "(''name'', ''Name must be less than 50 characters'') \<in> set ?es"
    by (simp add: validateSpotCreation_rules_def check_single check_pair)
  then have "?es \<noteq> []" by auto
  then have "post_spots tn now uid b d = (Inl (ValidationFailed ?es), d)"
    by (simp add: post_spots_def validateSpotCreation_def handleValidationErrors_Some)
  with m show "\<exists>es. post_spots tn now uid b d = (Inl (ValidationFailed es), d) \<and>
            status_of (ValidationFailed es) = 400 \<and>
            (''name'', ''Name must be less than 50 characters'') \<in> set es"
    by auto
next
  assume a: "truthy (field b ''name'') \<and>
    get_length (field b ''name'') = Some (JNum (Finite q)) \<and> q < 50"
  then have "name_custom tn (field b ''name'')"
    by (simp add: name_custom_def)
  with a show "\<forall>m. (''name'', m) \<notin> set (validateSpotCreation_rules tn b)"
    by (simp add: validateSpotCreation_rules_def check_single check_pair exists_checkFalsy_def)
qed

text \<open>A name of 60 characters is rejected with the message; the name "Cabin" passes.\<close>

theorem spot_name_rule_witness:
  "get_length (field (spot_body(''name'' \<mapsto> JStr (replicate 60 0x61))) ''name'')
     = Some (JNum (Finite 60)) \<and>
   (\<exists>es. post_spots (\<lambda>v. NaN) 7 3 (spot_body(''name'' \<mapsto> JStr (replicate 60 0x61))) example_store
           = (Inl (ValidationFailed es), example_store) \<and>
         (''name'', ''Name must be less than 50 characters'') \<in> set es) \<and>
   get_length (field spot_body ''name'') = Some (JNum (Finite 5)) \<and>
   (\<forall>m. (''name'', m) \<notin> set (validateSpotCreation_rules (\<lambda>v. NaN) spot_body))"
proof -
  have l60: "get_length (field (spot_body(''name'' \<mapsto> JStr (replicate 60 0x61))) ''name'')
     = Some (JNum (Finite 60))"
    by (simp add: field_def)
  have l5: "get_length (field spot_body ''name'') = Some (JNum (Finite 5))"
    by (simp add: spot_body_fields str_def)
  have t5: "truthy (field spot_body ''name'')"
    by (simp add: spot_body_fields str_def)
  from spot_name_rule[of "spot_body(''name'' \<mapsto> JStr (replicate 60 0x61))" 60
         "\<lambda>v. NaN" 7 3 example_store] l60
       spot_name_rule[of spot_body 5 "\<lambda>v. NaN"] l5 t5
  show ?thesis by simp
qed

text \<open>
  Claim C7. For an authenticated POST \<open>/spots\<close> with a valid payload the created spot has
  the user's id as \<open>ownerId\<close> and the ten body fields as its listing fields, none of them
  missing; it is appended to the store, and the response has status 200 and the created
  record.
\<close>

theorem post_spots_creates:
  assumes "validateSpotCreation tn b = None"
  shows "\<exists>spot. post_spots tn now uid b d =
           (Inr \<lparr>status = 200, json = SpotJson spot\<rparr>,
            d\<lparr>spots := spots d @ [spot], nextSpotId := nextSpotId d + 1\<rparr>) \<and>
         ownerId spot = uid \<and>
         address spot = field b ''address'' \<and> city spot = field b ''city'' \<and>
         state spot = field b ''state'' \<and> country spot = field b ''country'' \<and>
         lat spot = field b ''lat'' \<and> lng spot = field b ''lng'' \<and>
         name spot = field b ''name'' \<and> description spot = field b ''description'' \<and>
         price spot = field b ''price'' \<and> previewImage spot = field b ''previewImage'' \<and>
         truthy (address spot) \<and> truthy (city spot) \<and> truthy (state spot) \<and>
         truthy (country spot) \<and> truthy (lat spot) \<and> truthy (lng spot) \<and>
         truthy (name spot) \<and> truthy (description spot) \<and> truthy (price spot) \<and>
         truthy (previewImage spot)"
proof -
  let ?spot = "\<lparr>spot_id = nextSpotId d, ownerId = uid,
      address = field b ''address'', city = field b ''city'',
      state = field b ''state'', country = field b ''country'',
      lat = field b ''lat'', lng = field b ''lng'',
      name = field b ''name'', description = field b ''description'',
      price = field b ''price'', previewImage = field b ''previewImage'',
      createdAt = now, updatedAt = now\<rparr>"
  from assms have t: "validateSpotCreation_rules tn b = []"
    by (simp add: validateSpotCreation_None)
  from assms have "post_spots tn now uid b d = post_spots_handler now uid b d"
    by (simp add: post_spots_def)
  then have "post_spots tn now uid b d =
      (Inr \<lparr>status = 200, json = SpotJson ?spot\<rparr>,
       d\<lparr>spots := spots d @ [?spot], nextSpotId := nextSpotId d + 1\<rparr>)"
    by (simp add: post_spots_handler_def Let_def)
  with t show ?thesis
    unfolding validateSpotCreation_rules_Nil
    by (intro exI[of _ ?spot]) simp
qed

theorem post_spots_creates_witness:
  "validateSpotCreation (\<lambda>v. NaN) spot_body = None \<and>
   (\<exists>spot. post_spots (\<lambda>v. NaN) 7 3 spot_body example_store =
           (Inr \<lparr>status = 200, json = SpotJson spot\<rparr>,
            example_store\<lparr>spots := spots example_store @ [spot],
                          nextSpotId := nextSpotId example_store + 1\<rparr>) \<and>
          ownerId spot = 3 \<and> name spot = JStr (str ''Cabin'') \<and>
          previewImage spot = JStr (str ''cabin.png''))"
  using post_spots_creates[OF spot_body_valid, of 7 3 example_store] spot_body_valid
  by (auto simp: spot_body_fields)

text \<open>
  Claim C8. A successful PUT \<open>/spots/:spotId\<close> sets the nine edit fields of the spot from
  the body and leaves its id, \<open>ownerId\<close>, \<open>previewImage\<close> and \<open>createdAt\<close> as they were;
  the other spots and the other tables are untouched; the edit rule set does not look at
  \<open>previewImage\<close>.
\<close>

theorem put_spot_updates:
  assumes "put_spot tn now uid sid b d = (Inr r, d')"
  shows "\<exists>spot spot'.
           findByPk (spots d) sid = Some spot \<and>
           findByPk (spots d') sid = Some spot' \<and>
           address spot' = field b ''address'' \<and> city spot' = field b ''city'' \<and>
           state spot' = field b ''state'' \<and> country spot' = field b ''country'' \<and>
           lat spot' = field b ''lat'' \<and> lng spot' = field b ''lng'' \<and>
           name spot' = field b ''name'' \<and> description spot' = field b ''description'' \<and>
           price spot' = field b ''price'' \<and>
           spot_id spot' = spot_id spot \<and> ownerId spot' = ownerId spot \<and>
           previewImage spot' = previewImage spot \<and> createdAt spot' = createdAt spot \<and>
           spots d' = map (\<lambda>x. if spot_id x = sid then update_spot now b x else x) (spots d) \<and>
           reviews d' = reviews d \<and> images d' = images d \<and> users d' = users d \<and>
           (\<forall>v. validateSpotEdit tn (b(''previewImage'' := v)) = validateSpotEdit tn b)"
proof -
  from assms have h: "put_spot_handler now uid sid b d = (Inr r, d')"
    by (auto simp: put_spot_def split: option.splits)
  then obtain spot where f: "findByPk (spots d) sid = Some spot"
    by (auto simp: put_spot_handler_def split: option.splits)
  then have i: "spot_id spot = sid" by (simp add: findByPk_Some_id)
  from h f i have d': "d' = d\<lparr>spots := map (\<lambda>x. if spot_id x = sid then update_spot now b x else x)
                             (spots d)\<rparr>"
    by (auto simp: put_spot_handler_def split: if_splits)
  have "findByPk (map (\<lambda>x. if spot_id x = sid then update_spot now b x else x) (spots d)) sid
          = map_option (\<lambda>x. if spot_id x = sid then update_spot now b x else x) (findByPk (spots d) sid)"
    by (rule findByPk_map) simp
  with f i d' have f': "findByPk (spots d') sid = Some (update_spot now b spot)"
    by simp
  show ?thesis
    apply (rule exI[of _ spot])
    apply (rule exI[of _ "update_spot now b spot"])
    using f f' d' by (simp add: validateSpotEdit_previewImage) (simp add: update_spot_def)
qed

text \<open>User 3 edits spot 3: the name is the one of the body, the preview image the old one.\<close>

theorem put_spot_updates_witness:
  "\<exists>r d' spot'.
     put_spot (\<lambda>v. NaN) 9 3 3 spot_body example_store = (Inr r, d') \<and>
     findByPk (spots d') 3 = Some spot' \<and>
     name spot' = JStr (str ''Cabin'') \<and>
     ownerId spot' = 3 \<and>
     previewImage spot' = JStr (str ''loft.png'') \<and>
     createdAt spot' = 0 \<and>
     reviews d' = seed_reviews"
proof -
  obtain r d' where e: "put_spot (\<lambda>v. NaN) 9 3 3 spot_body example_store = (Inr r, d')"
    by (simp add: put_spot_def spot_body_valid_edit put_spot_handler_def example_spots
        listing_sel)
  from put_spot_updates[OF e] obtain spot' where
    "findByPk (spots d') 3 = Some spot'" "name spot' = field spot_body ''name''"
    "ownerId spot' = ownerId (listing 3 3)" "previewImage spot' = previewImage (listing 3 3)"
    "createdAt spot' = createdAt (listing 3 3)" "reviews d' = reviews example_store"
    by (auto simp: example_spots)
  with e show ?thesis
    by (auto simp: spot_body_fields listing_sel example_tables)
qed

text \<open>
  Claim C9. When POST \<open>/spots/:spotId/reviews\<close> fails, with 404 because the spot does not
  exist or with 403 because the user already has a review for the spot, or in any other
  way, the store is the one it started from.
\<close>

theorem post_spot_review_failure:
  "(findByPk (spots d) sid = None \<longrightarrow>
      post_spot_review_handler uid sid b d = (Inl spot_not_found, d) \<and>
      status_of spot_not_found = 404) \<and>
   (findByPk (spots d) sid = Some spot \<and>
    (\<exists>rv \<in> set (reviews d). userId rv = uid \<and> spotId rv = sid) \<longrightarrow>
      post_spot_review_handler uid sid b d = (Inl already_reviewed, d) \<and>
      status_of already_reviewed = 403) \<and>
   (post_spot_review uid sid b d = (Inl e, d') \<longrightarrow> d' = d)"
proof (intro conjI impI)
  assume "findByPk (spots d) sid = None"
  then show "post_spot_review_handler uid sid b d = (Inl spot_not_found, d)"
    by (simp add: post_spot_review_handler_def)
next
  show "status_of spot_not_found = 404" by (simp add: spot_not_found_def)
next
  assume a: "findByPk (spots d) sid = Some spot \<and>
    (\<exists>rv \<in> set (reviews d). userId rv = uid \<and> spotId rv = sid)"
  then have i: "spot_id spot = sid" by (auto dest: findByPk_Some_id)
  with a obtain y where "find (\<lambda>r. userId r = uid \<and> spotId r = spot_id spot) (reviews d) = Some y"
    using find_Some_ex[of "reviews d" "\<lambda>r. userId r = uid \<and> spotId r = spot_id spot"] by auto
  with a show "post_spot_review_handler uid sid b d = (Inl already_reviewed, d)"
    by (simp add: post_spot_review_handler_def)
next
  show "status_of already_reviewed = 403" by (simp add: already_reviewed_def)
next
  assume "post_spot_review uid sid b d = (Inl e, d')"
  then show "d' = d"
    by (auto simp: post_spot_review_def post_spot_review_handler_def Let_def
             split: option.splits)
qed

text \<open>
  There is no spot 9; user 3 has a review for spot 1; both requests fail and leave the
  example store as it is.
\<close>

theorem post_spot_review_failure_witness:
  "findByPk (spots example_store) 9 = None \<and>
   post_spot_review 3 9 (review_body 4) example_store = (Inl spot_not_found, example_store) \<and>
   findByPk (spots example_store) 1 = Some (listing 1 2) \<and>
   (\<exists>rv \<in> set (reviews example_store). userId rv = 3 \<and> spotId rv = 1) \<and>
   post_spot_review 3 1 (review_body 4) example_store = (Inl already_reviewed, example_store)"
proof -
  have x: "\<exists>rv \<in> set (reviews example_store). userId rv = 3 \<and> spotId rv = 1"
    by (simp add: example_tables seed_reviews_def)
  from post_spot_review_failure[of example_store 9 3 "review_body 4"] example_spots(4)
  have a: "post_spot_review 3 9 (review_body 4) example_store = (Inl spot_not_found, example_store)"
    by (simp add: post_spot_review_def review_body_valid)
  from post_spot_review_failure[of example_store 1 3 "review_body 4" "listing 1 2"]
    example_spots(1) x
  have b: "post_spot_review 3 1 (review_body 4) example_store = (Inl already_reviewed, example_store)"
    by (simp add: post_spot_review_def review_body_valid)
  from post_spot_review_failure[of example_store 9 3 "review_body 4" _ spot_not_found example_store]
    a b x example_spots show ?thesis by simp
qed

text \<open>
  Claim C10. A successful DELETE \<open>/spots/:spotId\<close> removes from \<open>Spots\<close> the rows whose id
  is \<open>spotId\<close>, which is the one spot found when ids are distinct, and nothing else: the
  other spots stay, and the reviews, those of the deleted spot too, the images and the
  users are as before.
\<close>

theorem delete_spot_removes:
  assumes "delete_spot uid sid d = (Inr r, d')"
  shows "\<exists>spot. findByPk (spots d) sid = Some spot \<and>
           spots d' = filter (\<lambda>x. spot_id x \<noteq> sid) (spots d) \<and>
           findByPk (spots d') sid = None \<and>
           (distinct (map spot_id (spots d)) \<longrightarrow> spots d' = remove1 spot (spots d)) \<and>
           reviews d' = reviews d \<and> images d' = images d \<and> users d' = users d \<and>
           reviews_of d' sid = reviews_of d sid"
proof -
  from assms obtain spot where f: "findByPk (spots d) sid = Some spot"
    by (auto simp: delete_spot_def split: option.splits)
  with assms have d': "d' = d\<lparr>spots := filter (\<lambda>x. spot_id x \<noteq> sid) (spots d)\<rparr>"
    by (auto simp: delete_spot_def split: if_splits)
  show ?thesis
    apply (rule exI[of _ spot])
    using f d' by (simp add: findByPk_filter_neq filter_remove1_distinct reviews_of_def)
qed

text \<open>User 3 deletes spot 3: three spots are left, and the review of spot 3 is still there.\<close>

theorem delete_spot_removes_witness:
  "\<exists>r d'.
     delete_spot 3 3 example_store = (Inr r, d') \<and>
     distinct (map spot_id (spots example_store)) \<and>
     spots d' = [listing 1 2, listing 2 1, listing 4 4] \<and>
     reviews d' = seed_reviews \<and>
     length (reviews_of d' 3) = 1"
proof -
  obtain r d' where e: "delete_spot 3 3 example_store = (Inr r, d')"
    by (simp add: delete_spot_def example_spots listing_sel)
  have di: "distinct (map spot_id (spots example_store))"
    by (simp add: example_store_def listing_def)
  from delete_spot_removes[OF e] di have
    "spots d' = remove1 (listing 3 3) (spots example_store)"
    "reviews d' = reviews example_store"
    "reviews_of d' 3 = reviews_of example_store 3"
    by (auto simp: example_spots)
  with e di show ?thesis
    by (auto simp: example_store_def listing_def reviews_of_def seed_reviews_def)
qed

section \<open>The average rating\<close>
lemma ilog2_bounds:
  "1 \<le> n \<Longrightarrow> 0 \<le> ilog2 n \<and> 2 ^ nat (ilog2 n) \<le> n \<and> n < 2 * 2 ^ nat (ilog2 n)"
proof (induction n rule: ilog2.induct)
  case (1 n)
  show ?case
  proof (cases "n < 2")
    case True
    with "1.prems" have "n = 1" by simp
    then show ?thesis by (simp add: ilog2.simps)
  next
    case False
    then have h: "1 \<le> n div 2" by simp
    from "1.IH"[OF False h] have
      a: "0 \<le> ilog2 (n div 2)" and
      b: "2 ^ nat (ilog2 (n div 2)) \<le> n div 2" and
      c: "n div 2 < 2 * 2 ^ nat (ilog2 (n div 2))"
      by simp_all
    from False have e: "ilog2 n = 1 + ilog2 (n div 2)"
      by (subst ilog2.simps) simp
    from a have p: "(2::int) ^ nat (1 + ilog2 (n div 2)) = 2 * 2 ^ nat (ilog2 (n div 2))"
      by (simp add: nat_add_distrib)
    from b have "2 * 2 ^ nat (ilog2 (n div 2)) \<le> n" by linarith
    moreover from c have "n < 2 * (2 * 2 ^ nat (ilog2 (n div 2)))" by linarith
    ultimately show ?thesis using a e p by simp
  qed
qed

lemma pow2_power_int: "pow2 e = power_int 2 e"
  by (simp add: pow2_def power_int_def power_one_over inverse_eq_divide)

lemma pow2_pos: "0 < pow2 e"
  by (simp add: pow2_def)

lemma pow2_add: "pow2 (a + b) = pow2 a * pow2 b"
  by (simp add: pow2_power_int power_int_add)

lemma pow2_nat: "pow2 (int k) = 2 ^ k"
  by (simp add: pow2_def)

lemma pow2_mono: "a \<le> b \<Longrightarrow> pow2 a \<le> pow2 b"
  by (simp add: pow2_power_int power_int_increasing)

lemma pow2_less_imp: "pow2 a < pow2 b \<Longrightarrow> a < b"
  using pow2_mono[of b a] by (cases "a < b") auto

lemma pow2_diff: "pow2 (a - b) = pow2 a / pow2 b"
  by (simp add: pow2_power_int power_int_diff)

lemma exponent_le:
  assumes "0 < q"
  shows "pow2 (exponent q) \<le> q"
proof -
  obtain a b where ab: "quotient_of q = (a, b)" by (cases "quotient_of q")
  then have b: "0 < b" by (rule quotient_of_denom_pos)
  from ab have q: "q = of_int a / of_int b" by (rule quotient_of_div)
  with assms b have a: "0 < a" by (simp add: zero_less_divide_iff)
  let ?d = "ilog2 a - ilog2 b"
  show ?thesis
  proof (cases "pow2 ?d \<le> q")
    case True
    with ab show ?thesis by (simp add: exponent_def Let_def)
  next
    case False
    with ab have e: "exponent q = ?d - 1" by (simp add: exponent_def Let_def)
    from a have la: "0 \<le> ilog2 a" "2 ^ nat (ilog2 a) \<le> a" using ilog2_bounds[of a] by simp_all
    from b have lb: "0 \<le> ilog2 b" "b < 2 * 2 ^ nat (ilog2 b)" using ilog2_bounds[of b] by simp_all
    from la have "rat_of_int (2 ^ nat (ilog2 a)) \<le> of_int a"
      by (simp only: of_int_le_iff)
    with la have pa: "pow2 (ilog2 a) \<le> of_int a"
      by (simp add: pow2_def)
    from lb have "rat_of_int b < of_int (2 * 2 ^ nat (ilog2 b))"
      by (simp only: of_int_less_iff)
    with lb have pb: "of_int b < pow2 (ilog2 b + 1)"
      by (simp add: pow2_add) (simp add: pow2_def)
    have "pow2 (?d - 1) = pow2 (ilog2 a) / pow2 (ilog2 b + 1)"
      by (simp add: pow2_diff[symmetric] algebra_simps)
    also have "\<dots> \<le> of_int a / pow2 (ilog2 b + 1)"
      by (intro divide_right_mono pa less_imp_le pow2_pos)
    also have "\<dots> \<le> of_int a / of_int b"
      using pb a b by (intro frac_le) simp_all
    finally show ?thesis using e q by simp
  qed
qed

lemma round_half_even_error: "\<bar>of_int (round_half_even x) - x\<bar> \<le> 1 / 2"
proof -
  have "of_int \<lfloor>x\<rfloor> \<le> x" "x < of_int \<lfloor>x\<rfloor> + 1" by linarith+
  then show ?thesis
    by (auto simp: round_half_even_def Let_def abs_le_iff)
qed

lemma round_half_even_nonneg: "0 \<le> x \<Longrightarrow> 0 \<le> round_half_even x"
  by (auto simp: round_half_even_def Let_def)

lemma round_half_even_of_int: "round_half_even (of_int k) = k"
  by (simp add: round_half_even_def)


lemma pow2_max_exponent_le:
  assumes "1 \<le> q"
  shows "pow2 (max (exponent q) (- 1022)) \<le> q"
proof (cases "- 1022 \<le> exponent q")
  case True
  then have "max (exponent q) (- 1022) = exponent q" by simp
  with assms exponent_le[of q] show ?thesis by simp
next
  case False
  then have "max (exponent q) (- 1022) = - 1022" by simp
  moreover have "pow2 (- 1022) \<le> pow2 0" by (rule pow2_mono) simp
  moreover have "pow2 0 = 1" by (simp add: pow2_def)
  ultimately show ?thesis using assms by simp
qed

lemma fl_error:
  assumes "1 \<le> q" and "q \<le> 2 ^ 1000"
  shows "\<exists>x. fl q = Finite x \<and> 0 \<le> x \<and> \<bar>x - q\<bar> \<le> q / 2 ^ 53"
proof -
  define e where "e = max (exponent q) (- 1022)"
  define u where "u = pow2 (e - 52)"
  define m where "m = round_half_even (q / u)"
  define r where "r = rat_of_int m * u"
  from assms have qpos: "0 < q" and absq: "\<bar>q\<bar> = q" by simp_all
  have u: "0 < u" by (simp add: u_def pow2_pos)
  have pe: "pow2 e \<le> q" unfolding e_def using assms(1) by (rule pow2_max_exponent_le)
  have "pow2 e = pow2 ((e - 52) + 52)" by simp
  also have "\<dots> = u * 2 ^ 52" unfolding u_def pow2_add by (simp add: pow2_def)
  finally have ue: "u * 2 ^ 52 \<le> q" using pe by simp
  have "\<bar>rat_of_int m - q / u\<bar> \<le> 1 / 2" unfolding m_def by (rule round_half_even_error)
  then have "\<bar>rat_of_int m - q / u\<bar> * u \<le> 1 / 2 * u"
    using u by (intro mult_right_mono) simp_all
  moreover have "\<bar>rat_of_int m - q / u\<bar> * u = \<bar>r - q\<bar>"
  proof -
    have "\<bar>rat_of_int m - q / u\<bar> * u = \<bar>rat_of_int m - q / u\<bar> * \<bar>u\<bar>"
      using u by simp
    also have "\<dots> = \<bar>(rat_of_int m - q / u) * u\<bar>" by (simp only: abs_mult)
    also have "(rat_of_int m - q / u) * u = r - q"
      using u by (simp add: r_def left_diff_distrib)
    finally show ?thesis .
  qed
  ultimately have err: "\<bar>r - q\<bar> \<le> u / 2" by simp
  from ue have "u / 2 \<le> q / 2 ^ 53" by (simp add: field_simps)
  with err have err': "\<bar>r - q\<bar> \<le> q / 2 ^ 53" by linarith
  have "q / 2 ^ 53 \<le> q" using qpos by (simp add: field_simps)
  with err' have "r \<le> 2 * q" by linarith
  also have "\<dots> \<le> 2 * 2 ^ 1000" using assms(2) by simp
  also have "\<dots> < (2::rat) ^ 1024" by simp
  finally have fin: "\<not> 2 ^ 1024 \<le> r" by simp
  have "0 \<le> q / u" using qpos u by simp
  then have "0 \<le> m" unfolding m_def by (rule round_half_even_nonneg)
  then have rn: "0 \<le> r" using u by (simp add: r_def)
  have "fl q = Finite r"
    using qpos fin
    by (simp add: fl_def Let_def absq e_def[symmetric] u_def[symmetric] m_def[symmetric]
        r_def[symmetric])
  with rn err' show ?thesis by blast
qed

lemma num_of_int_exact:
  assumes "0 < k" and "k < 2 ^ 53"
  shows "num_of_int k = Finite (of_int k)"
proof -
  define q where "q = rat_of_int k"
  define e where "e = max (exponent q) (- 1022)"
  define u where "u = pow2 (e - 52)"
  from assms have q1: "1 \<le> q" and qpos: "0 < q" and absq: "\<bar>q\<bar> = q" by (simp_all add: q_def)
  have pe: "pow2 e \<le> q" unfolding e_def using q1 by (rule pow2_max_exponent_le)
  from assms(2) have "rat_of_int k < of_int (2 ^ 53)" by (simp only: of_int_less_iff)
  then have "q < pow2 53" by (simp add: q_def pow2_def)
  with pe have "pow2 e < pow2 53" by simp
  then have e53: "e < 53" by (rule pow2_less_imp)
  define j where "j = nat (52 - e)"
  from e53 have j: "int j = 52 - e" by (simp add: j_def)
  have "pow2 (52 - e) * u = pow2 ((52 - e) + (e - 52))" unfolding u_def pow2_add ..
  then have inv: "pow2 (52 - e) * u = 1" by (simp add: pow2_def)
  have p: "pow2 (52 - e) = 2 ^ j" using j pow2_nat[of j] by simp
  have u: "0 < u" by (simp add: u_def pow2_pos)
  from inv u have "q / u = q * pow2 (52 - e)" by (simp add: field_simps)
  also have "\<dots> = rat_of_int (k * 2 ^ j)" by (simp add: p q_def)
  finally have "round_half_even (q / u) = k * 2 ^ j" by (simp only: round_half_even_of_int)
  then have "rat_of_int (round_half_even (q / u)) * u = q * (pow2 (52 - e) * u)"
    by (simp add: p q_def)
  then have r: "rat_of_int (round_half_even (q / u)) * u = q" by (simp add: inv)
  from assms(2) have "rat_of_int k < of_int (2 ^ 53)" by (simp only: of_int_less_iff)
  then have "q < 2 ^ 53" by (simp add: q_def)
  also have "\<dots> < (2::rat) ^ 1024" by simp
  finally have fin: "\<not> 2 ^ 1024 \<le> q" by simp
  have "fl q = Finite q"
    using qpos fin
    by (simp add: fl_def Let_def absq e_def[symmetric] u_def[symmetric] r)
  then show ?thesis by (simp add: num_of_int_def q_def)
qed


lemma sum_stars_bounds:
  "\<forall>r \<in> set rs. 1 \<le> stars r \<and> stars r \<le> 5 \<Longrightarrow>
     int (length rs) \<le> sum_list (map stars rs) \<and> sum_list (map stars rs) \<le> 5 * int (length rs)"
  by (induction rs) auto

lemma fixed1_two_digits:
  assumes "10 \<le> n" and "n < 100"
  shows "fixed1 n = [''0123456789'' ! nat (n div 10), CHR ''.'', ''0123456789'' ! nat (n mod 10)]"
proof -
  from assms have "n div 10 < 10" by simp
  then have "digits (n div 10) = [''0123456789'' ! nat (n div 10)]"
    by (subst digits.simps) simp
  with assms have "digits n = [''0123456789'' ! nat (n div 10), ''0123456789'' ! nat (n mod 10)]"
    by (subst digits.simps) simp
  then show ?thesis by (simp add: fixed1_def)
qed

lemma nearest_tenth:
  fixes S N n :: int and x :: rat
  assumes N: "0 < N" and S: "0 < S" and small: "20 * S < 2 ^ 53"
    and err: "\<bar>x - of_int S / of_int N\<bar> \<le> (of_int S / of_int N) / 2 ^ 53"
    and n: "n = \<lfloor>10 * x + 1 / 2\<rfloor>"
  shows "\<bar>rat_of_int n / 10 - of_int S / of_int N\<bar> \<le> 1 / 20"
proof -
  define q where "q = rat_of_int S / rat_of_int N"
  define g where "g = 1 / (2 * rat_of_int N)"
  have Nr: "0 < rat_of_int N" using N by simp
  from n have lo: "rat_of_int n \<le> 10 * x + 1 / 2" and hi: "10 * x + 1 / 2 < rat_of_int n + 1"
    by linarith+
  from small have "rat_of_int (20 * S) < of_int (2 ^ 53)" by (simp only: of_int_less_iff)
  then have small': "20 * rat_of_int S < 2 ^ 53" by simp
  have gap: "10 * (q / 2 ^ 53) < g"
  proof -
    have "10 * (q / 2 ^ 53) = (20 * rat_of_int S / 2 ^ 53) * g"
      by (simp add: q_def g_def)
    also have "\<dots> < 1 * g"
      using Nr small' by (intro mult_strict_right_mono) (simp_all add: g_def)
    finally show ?thesis by simp
  qed
  from err have e1: "q - x \<le> q / 2 ^ 53" and e2: "x - q \<le> q / 2 ^ 53"
    by (simp_all add: q_def abs_le_iff)
  have up: "10 * q \<le> rat_of_int n + 1 / 2"
  proof (rule ccontr)
    assume "\<not> 10 * q \<le> rat_of_int n + 1 / 2"
    then have "rat_of_int n + 1 / 2 < 10 * (rat_of_int S / rat_of_int N)" by (simp add: q_def)
    with Nr have "(rat_of_int n + 1 / 2) * rat_of_int N < 10 * rat_of_int S"
      by (simp add: field_simps)
    then have "rat_of_int ((2 * n + 1) * N) < rat_of_int (20 * S)"
      by (simp add: algebra_simps)
    then have "(2 * n + 1) * N < 20 * S" by (simp only: of_int_less_iff)
    then have "(2 * n + 1) * N + 1 \<le> 20 * S" by simp
    then have "rat_of_int ((2 * n + 1) * N + 1) \<le> rat_of_int (20 * S)"
      by (simp only: of_int_le_iff)
    then have "(2 * rat_of_int n + 1) * rat_of_int N + 1 \<le> 20 * rat_of_int S" by simp
    then have "((2 * rat_of_int n + 1) * rat_of_int N + 1) / (2 * rat_of_int N)
        \<le> (20 * rat_of_int S) / (2 * rat_of_int N)"
      using Nr by (intro divide_right_mono) simp_all
    moreover have "((2 * rat_of_int n + 1) * rat_of_int N + 1) / (2 * rat_of_int N)
        = rat_of_int n + 1 / 2 + g"
      using Nr by (simp add: g_def field_simps)
    moreover have "(20 * rat_of_int S) / (2 * rat_of_int N) = 10 * q"
      by (simp add: q_def)
    ultimately have "rat_of_int n + 1 / 2 + g \<le> 10 * q"
      by simp
    with hi e1 gap show False by linarith
  qed
  have down: "rat_of_int n - 1 / 2 \<le> 10 * q"
  proof (rule ccontr)
    assume "\<not> rat_of_int n - 1 / 2 \<le> 10 * q"
    then have "10 * (rat_of_int S / rat_of_int N) < rat_of_int n - 1 / 2" by (simp add: q_def)
    with Nr have "10 * rat_of_int S < (rat_of_int n - 1 / 2) * rat_of_int N"
      by (simp add: field_simps)
    then have "rat_of_int (20 * S) < rat_of_int ((2 * n - 1) * N)"
      by (simp add: algebra_simps)
    then have "20 * S < (2 * n - 1) * N" by (simp only: of_int_less_iff)
    then have "20 * S + 1 \<le> (2 * n - 1) * N" by simp
    then have "rat_of_int (20 * S + 1) \<le> rat_of_int ((2 * n - 1) * N)"
      by (simp only: of_int_le_iff)
    then have "20 * rat_of_int S + 1 \<le> (2 * rat_of_int n - 1) * rat_of_int N" by simp
    then have "(20 * rat_of_int S + 1) / (2 * rat_of_int N)
        \<le> ((2 * rat_of_int n - 1) * rat_of_int N) / (2 * rat_of_int N)"
      using Nr by (intro divide_right_mono) simp_all
    moreover have "((2 * rat_of_int n - 1) * rat_of_int N) / (2 * rat_of_int N)
        = rat_of_int n - 1 / 2"
      using Nr by (simp add: field_simps)
    moreover have "(20 * rat_of_int S + 1) / (2 * rat_of_int N) = 10 * q + g"
      using Nr by (simp add: q_def g_def field_simps)
    ultimately have "10 * q + g \<le> rat_of_int n - 1 / 2"
      by simp
    with lo e2 gap show False by linarith
  qed
  from up down have "rat_of_int n / 10 - q \<le> 1 / 20" "- (rat_of_int n / 10 - q) \<le> 1 / 20"
    by linarith+
  then have "\<bar>rat_of_int n / 10 - q\<bar> \<le> 1 / 20"
    by (rule abs_leI)
  then show ?thesis by (simp add: q_def)
qed


lemma average_of_selected_reviews:
  assumes "findByPk (spots d) sid = Some spot"
    and "reviews_of d sid \<noteq> []"
    and "\<forall>r \<in> set (reviews_of d sid). 1 \<le> stars r \<and> stars r \<le> 5"
    and "length (reviews_of d sid) < 2 ^ 46"
  shows "numReviews d sid = int (length (reviews_of d sid)) \<and>
         (\<exists>n. rounded_to_one_decimal n (mean (map stars (reviews_of d sid))) \<and>
              10 \<le> n \<and> n \<le> 50 \<and>
              avgStarRating d sid =
                Decimal [''0123456789'' ! nat (n div 10), CHR ''.'', ''0123456789'' ! nat (n mod 10)] \<and>
              (\<exists>imgs owner. get_spot sid d =
                 (Inr \<lparr>status = 200,
                       json = SpotDetails spot imgs owner (int (length (reviews_of d sid)))
                                (avgStarRating d sid)\<rparr>, d)))"
proof -
  define rs where "rs = reviews_of d sid"
  define N where "N = int (length rs)"
  define S where "S = sum_list (map stars rs)"
  define q where "q = rat_of_int S / rat_of_int N"
  from assms(2) have N: "0 < N" by (simp add: N_def rs_def)
  from assms(3) have "N \<le> S \<and> S \<le> 5 * N"
    unfolding N_def S_def rs_def by (rule sum_stars_bounds)
  then have NS: "N \<le> S" and S5: "S \<le> 5 * N" by simp_all
  from assms(4) have "int (length rs) < int (2 ^ 46)"
    unfolding rs_def by (simp only: of_nat_less_iff)
  then have N46: "N < 2 ^ 46" by (simp add: N_def)
  from N NS have S: "0 < S" by simp
  from S5 N46 have small: "20 * S < 2 ^ 53" by simp
  then have S53: "S < 2 ^ 53" using S by simp
  from N46 have N53: "N < 2 ^ 53" by simp
  have nr: "numReviews d sid = N" by (simp add: numReviews_def N_def rs_def)
  have ss: "sumOfStars d sid = Some S"
    using assms(2) by (simp add: sumOfStars_def S_def rs_def)
  have Nr: "0 < rat_of_int N" using N by simp
  from NS have "rat_of_int N \<le> rat_of_int S" by (simp only: of_int_le_iff)
  with Nr have q1: "1 \<le> q" by (simp add: q_def)
  from S5 have "rat_of_int S \<le> rat_of_int (5 * N)" by (simp only: of_int_le_iff)
  with Nr have q5: "q \<le> 5" by (simp add: q_def field_simps)
  then have "q \<le> 2 ^ 1000" by simp
  with q1 obtain x where x: "fl q = Finite x" "0 \<le> x" "\<bar>x - q\<bar> \<le> q / 2 ^ 53"
    using fl_error[of q] by blast
  have dv: "js_div (num_of_int S) (num_of_int N) = Finite x"
    using N x(1) by (simp add: num_of_int_exact[OF S S53] num_of_int_exact[OF N N53] q_def)
  define n where "n = \<lfloor>10 * x + 1 / 2\<rfloor>"
  have "q / 2 ^ 53 \<le> q" using q1 by (simp add: field_simps)
  with x(3) q5 have x10: "x \<le> 10" by linarith
  from x(2) have absx: "\<bar>x\<bar> = x" and xn: "\<not> x < 0" by simp_all
  from x10 have big: "\<not> 10 ^ 21 \<le> x" by simp
  have "toFixed1 (Finite x) = Decimal ([] @ fixed1 \<lfloor>10 * x + 1 / 2\<rfloor>)"
    unfolding toFixed1.simps absx using big xn by (simp only: if_False)
  then have tf: "toFixed1 (Finite x) = Decimal (fixed1 n)"
    by (simp only: n_def append_Nil)
  have av: "avgStarRating d sid = Decimal (fixed1 n)"
    by (simp add: avgStarRating_def Let_def nr ss dv tf del: toFixed1.simps)
  from x(3) have "\<bar>x - rat_of_int S / rat_of_int N\<bar> \<le> (rat_of_int S / rat_of_int N) / 2 ^ 53"
    by (simp add: q_def)
  with N S small have nt: "\<bar>rat_of_int n / 10 - rat_of_int S / rat_of_int N\<bar> \<le> 1 / 20"
    using n_def by (rule nearest_tenth)
  have mq: "mean (map stars (reviews_of d sid)) = q"
    by (simp add: mean_def q_def S_def N_def rs_def)
  from nt have r: "rounded_to_one_decimal n (mean (map stars (reviews_of d sid)))"
    by (simp add: rounded_to_one_decimal_def mq q_def)
  from nt have "\<bar>rat_of_int n / 10 - q\<bar> \<le> 1 / 20" by (simp only: q_def)
  with q1 q5 have "19 / 2 \<le> rat_of_int n" "rat_of_int n \<le> 101 / 2"
    by linarith+
  then have nb: "10 \<le> n" "n \<le> 50" by linarith+
  then have f: "fixed1 n = [''0123456789'' ! nat (n div 10), CHR ''.'', ''0123456789'' ! nat (n mod 10)]"
    by (intro fixed1_two_digits) simp_all
  have g: "\<exists>imgs owner. get_spot sid d =
      (Inr \<lparr>status = 200,
            json = SpotDetails spot imgs owner (int (length (reviews_of d sid)))
                     (avgStarRating d sid)\<rparr>, d)"
    using assms(1) by (simp add: get_spot_def numReviews_def)
  from nr r nb av f g show ?thesis
    unfolding N_def rs_def by (intro conjI exI[of _ n]) simp_all
qed

lemma rated_reviews_of:
  "reviews_of (rated xs) 1 =
     map (\<lambda>(i, s). \<lparr>review_id = int i, userId = int i, spotId = 1,
                     review = JStr (str ''Fine''), stars = s\<rparr>) (zip [1 ..< Suc (length xs)] xs)"
  by (simp add: reviews_of_def rated_def case_prod_unfold)

lemma rated_stars: "map stars (reviews_of (rated xs) 1) = xs"
proof -
  have "map stars (reviews_of (rated xs) 1) = map snd (zip [1 ..< Suc (length xs)] xs)"
    by (simp add: rated_reviews_of case_prod_unfold)
  also have "\<dots> = xs" by (rule map_snd_zip) (simp del: upt_Suc)
  finally show ?thesis .
qed

lemma rated_length: "length (reviews_of (rated xs) 1) = length xs"
  using rated_stars[of xs] by (metis length_map)

lemma rated_spot: "findByPk (spots (rated xs)) 1 = Some (listing 1 2)"
  by (simp add: rated_def example_spots)

lemma rated_stars_range:
  assumes "\<forall>x \<in> set xs. 1 \<le> x \<and> x \<le> 5"
  shows "\<forall>r \<in> set (reviews_of (rated xs) 1). 1 \<le> stars r \<and> stars r \<le> 5"
proof
  fix r assume "r \<in> set (reviews_of (rated xs) 1)"
  then have "stars r \<in> set (map stars (reviews_of (rated xs) 1))" by simp
  then have "stars r \<in> set xs" by (simp only: rated_stars)
  with assms show "1 \<le> stars r \<and> stars r \<le> 5" by simp
qed

text \<open>
  Claim C3. For an existing spot with N > 0 reviews, GET \<open>/spots/:id\<close> attaches
  \<open>numReviews\<close> N and, as \<open>avgStarRating\<close>, the mean of the star values rounded to one
  decimal place. The reviews of the spot are the rows of the table whose \<open>spotId\<close> is the
  spot's; the response carries their number and the decimal string, with one digit
  after the point, of a number of tenths that no other is nearer to their mean. It is
  proved for star values from 1 to 5, the range of the data model, and fewer than
  \<open>2^46\<close> reviews, where the rounding of the division cannot move the quotient across the
  middle between two tenths.
\<close>

theorem get_spot_average:
  assumes "findByPk (spots d) sid = Some spot"
    and "filter (\<lambda>r. spotId r = sid) (reviews d) \<noteq> []"
    and "\<forall>r \<in> set (reviews d). spotId r = sid \<longrightarrow> 1 \<le> stars r \<and> stars r \<le> 5"
    and "length (filter (\<lambda>r. spotId r = sid) (reviews d)) < 2 ^ 46"
  shows "\<exists>n imgs owner.
           rounded_to_one_decimal n
             (mean (map stars (filter (\<lambda>r. spotId r = sid) (reviews d)))) \<and>
           10 \<le> n \<and> n \<le> 50 \<and>
           get_spot sid d =
             (Inr \<lparr>status = 200,
                   json = SpotDetails spot imgs owner
                            (int (length (filter (\<lambda>r. spotId r = sid) (reviews d))))
                            (Decimal [''0123456789'' ! nat (n div 10), CHR ''.'',
                                      ''0123456789'' ! nat (n mod 10)])\<rparr>, d)"
proof -
  have s: "reviews_of d sid = filter (\<lambda>r. spotId r = sid) (reviews d)"
    by (simp add: reviews_of_def)
  from assms(2) have h2: "reviews_of d sid \<noteq> []" by (simp add: s)
  from assms(3) have h3: "\<forall>r \<in> set (reviews_of d sid). 1 \<le> stars r \<and> stars r \<le> 5"
    by (simp add: s)
  from assms(4) have h4: "length (reviews_of d sid) < 2 ^ 46" by (simp add: s)
  from average_of_selected_reviews[OF assms(1) h2 h3 h4] obtain n imgs owner where
    r: "rounded_to_one_decimal n (mean (map stars (reviews_of d sid)))" and
    nb: "10 \<le> n" "n \<le> 50" and
    a: "avgStarRating d sid =
          Decimal [''0123456789'' ! nat (n div 10), CHR ''.'', ''0123456789'' ! nat (n mod 10)]" and
    g: "get_spot sid d =
          (Inr \<lparr>status = 200,
                json = SpotDetails spot imgs owner (int (length (reviews_of d sid)))
                         (avgStarRating d sid)\<rparr>, d)"
    by blast
  show ?thesis
    apply (rule exI[of _ n])
    apply (rule exI[of _ imgs])
    apply (rule exI[of _ owner])
    using r nb g unfolding a s by (intro conjI)
qed

text \<open>
  Spot 1 of the store with five reviews has three of them, with 3, 5 and 5 stars: the
  response carries 3 and "4.3", for the mean 13/3; the mean of the whole table is 19/5.
\<close>

theorem get_spot_average_witness:
  "map stars (reviews busy_store) = [5, 1, 3, 5, 5] \<and>
   map stars (filter (\<lambda>r. spotId r = 1) (reviews busy_store)) = [3, 5, 5] \<and>
   mean [3, 5, 5] = 13 / 3 \<and>
   mean [5, 1, 3, 5, 5] = 19 / 5 \<and>
   (\<exists>imgs owner. get_spot 1 busy_store =
      (Inr \<lparr>status = 200,
            json = SpotDetails (listing 1 2) imgs owner 3 (Decimal ''4.3'')\<rparr>, busy_store))"
proof -
  have rv: "reviews busy_store = seed_reviews @
          [\<lparr>review_id = 4, userId = 4, spotId = 1, review = JStr (str ''Fine''), stars = 5\<rparr>,
           \<lparr>review_id = 5, userId = 5, spotId = 1, review = JStr (str ''Fine''), stars = 5\<rparr>]"
    by (simp add: busy_store_def)
  have all: "map stars (reviews busy_store) = [5, 1, 3, 5, 5]"
    by (simp add: rv seed_reviews_def)
  have sel: "map stars (filter (\<lambda>r. spotId r = 1) (reviews busy_store)) = [3, 5, 5]"
    by (simp add: rv seed_reviews_def)
  have h1: "findByPk (spots busy_store) 1 = Some (listing 1 2)"
    by (simp add: busy_store_def example_spots)
  from sel have l: "length (filter (\<lambda>r. spotId r = 1) (reviews busy_store)) = 3"
    by (metis length_map length_Cons list.size(3) numeral_3_eq_3)
  then have h2: "filter (\<lambda>r. spotId r = 1) (reviews busy_store) \<noteq> []" by auto
  have h3: "\<forall>r \<in> set (reviews busy_store). spotId r = 1 \<longrightarrow> 1 \<le> stars r \<and> stars r \<le> 5"
    by (simp add: rv seed_reviews_def)
  from l have h4: "length (filter (\<lambda>r. spotId r = 1) (reviews busy_store)) < 2 ^ 46" by simp
  have m: "mean [3, 5, 5] = 13 / 3" by (simp add: mean_def)
  have m': "mean [5, 1, 3, 5, 5] = 19 / 5" by (simp add: mean_def)
  from get_spot_average[OF h1 h2 h3 h4] obtain n imgs owner where
    r: "rounded_to_one_decimal n
          (mean (map stars (filter (\<lambda>r. spotId r = 1) (reviews busy_store))))" and
    g: "get_spot 1 busy_store =
          (Inr \<lparr>status = 200,
                json = SpotDetails (listing 1 2) imgs owner
                         (int (length (filter (\<lambda>r. spotId r = 1) (reviews busy_store))))
                         (Decimal [''0123456789'' ! nat (n div 10), CHR ''.'',
                                   ''0123456789'' ! nat (n mod 10)])\<rparr>, busy_store)"
    by blast
  from r have "\<bar>rat_of_int n / 10 - 13 / 3\<bar> \<le> 1 / 20"
    by (simp only: sel m rounded_to_one_decimal_def)
  then have "rat_of_int n < 44" "42 < rat_of_int n" by linarith+
  then have "rat_of_int n < rat_of_int 44" "rat_of_int 42 < rat_of_int n" by simp_all
  then have "n < 44" "42 < n" by (simp_all only: of_int_less_iff)
  then have n: "n = 43" by simp
  from g have "get_spot 1 busy_store =
      (Inr \<lparr>status = 200,
            json = SpotDetails (listing 1 2) imgs owner 3 (Decimal ''4.3'')\<rparr>, busy_store)"
    unfolding l n by simp
  with all sel m m' show ?thesis by blast
qed

text \<open>
  When the mean is exactly in the middle between two tenths, the double nearest to the
  quotient decides: 29/20 gives "1.4" and 5/4 gives "1.3".
\<close>

lemma avgStarRating_rated:
  assumes "xs \<noteq> []"
  shows "avgStarRating (rated xs) 1 =
           toFixed1 (js_div (num_of_int (sum_list xs)) (num_of_int (int (length xs))))"
proof -
  from assms have "reviews_of (rated xs) 1 \<noteq> []"
    using rated_length[of xs] by auto
  then show ?thesis
    by (simp add: avgStarRating_def numReviews_def sumOfStars_def rated_stars rated_length
        del: toFixed1.simps js_div.simps)
qed

lemma exponent_less:
  assumes "0 < q"
  shows "q < pow2 (exponent q + 1)"
proof -
  obtain a b where ab: "quotient_of q = (a, b)" by (cases "quotient_of q")
  then have b: "0 < b" by (rule quotient_of_denom_pos)
  from ab have q: "q = of_int a / of_int b" by (rule quotient_of_div)
  with assms b have a: "0 < a" by (simp add: zero_less_divide_iff)
  let ?d = "ilog2 a - ilog2 b"
  show ?thesis
  proof (cases "pow2 ?d \<le> q")
    case False
    with ab have "exponent q = ?d - 1" by (simp add: exponent_def Let_def)
    with False show ?thesis by simp
  next
    case True
    with ab have e: "exponent q = ?d" by (simp add: exponent_def Let_def)
    from a have la: "0 \<le> ilog2 a" "a < 2 * 2 ^ nat (ilog2 a)" using ilog2_bounds[of a] by simp_all
    from b have lb: "0 \<le> ilog2 b" "2 ^ nat (ilog2 b) \<le> b" using ilog2_bounds[of b] by simp_all
    from la have "rat_of_int a < of_int (2 * 2 ^ nat (ilog2 a))"
      by (simp only: of_int_less_iff)
    with la have pa: "of_int a < pow2 (ilog2 a + 1)"
      by (simp add: pow2_add) (simp add: pow2_def)
    from lb have "rat_of_int (2 ^ nat (ilog2 b)) \<le> of_int b"
      by (simp only: of_int_le_iff)
    with lb have pb: "pow2 (ilog2 b) \<le> of_int b"
      by (simp add: pow2_def)
    have "of_int a / of_int b < pow2 (ilog2 a + 1) / rat_of_int b"
      using pa b by (intro divide_strict_right_mono) simp_all
    also have "\<dots> \<le> pow2 (ilog2 a + 1) / pow2 (ilog2 b)"
      using pb pow2_pos[of "ilog2 b"] pow2_pos[of "ilog2 a + 1"] by (intro frac_le) simp_all
    also have "\<dots> = pow2 (?d + 1)"
      by (simp add: pow2_diff[symmetric] algebra_simps)
    finally show ?thesis using e q by simp
  qed
qed

lemma exponent_eqI:
  assumes "pow2 e \<le> q" and "q < pow2 (e + 1)"
  shows "exponent q = e"
proof -
  from assms(1) pow2_pos[of e] have q: "0 < q" by linarith
  from exponent_le[OF q] assms(2) have "pow2 (exponent q) < pow2 (e + 1)" by linarith
  then have a: "exponent q < e + 1" by (rule pow2_less_imp)
  from exponent_less[OF q] assms(1) have "pow2 e < pow2 (exponent q + 1)" by linarith
  then have "e < exponent q + 1" by (rule pow2_less_imp)
  with a show ?thesis by simp
qed

lemma round_half_even_eqI:
  assumes "rat_of_int m - 1 / 2 < x" and "x < rat_of_int m + 1 / 2"
  shows "round_half_even x = m"
proof -
  have f: "of_int \<lfloor>x\<rfloor> \<le> x" "x < of_int \<lfloor>x\<rfloor> + 1" by linarith+
  have "\<bar>rat_of_int (round_half_even x) - x\<bar> \<le> 1 / 2" by (rule round_half_even_error)
  with assms have "rat_of_int (round_half_even x) < rat_of_int m + 1"
    "rat_of_int m - 1 < rat_of_int (round_half_even x)"
    by linarith+
  then have "rat_of_int (round_half_even x) < rat_of_int (m + 1)"
    "rat_of_int (m - 1) < rat_of_int (round_half_even x)"
    by simp_all
  then have "round_half_even x < m + 1" "m - 1 < round_half_even x"
    by (simp_all only: of_int_less_iff)
  then show ?thesis by simp
qed

text \<open>The double of a quotient between 1 and 2, from its significand.\<close>

lemma fl_between_1_and_2:
  assumes "1 \<le> q" and "q < 2"
    and "rat_of_int m - 1 / 2 < q * 2 ^ 52" and "q * 2 ^ 52 < rat_of_int m + 1 / 2"
  shows "fl q = Finite (rat_of_int m / 2 ^ 52)"
proof -
  have e: "exponent q = 0"
    using assms(1,2) by (intro exponent_eqI) (simp_all add: pow2_def)
  have u: "pow2 (0 - 52) = 1 / 2 ^ 52" by (simp add: pow2_def)
  have m: "round_half_even (q * 2 ^ 52) = m"
    using assms(3,4) by (rule round_half_even_eqI)
  from assms(2) have "q * 2 ^ 52 < 2 * 2 ^ 52" by simp
  with assms(3) have "rat_of_int m < 2 * 2 ^ 52 + 1 / 2" by linarith
  then have "rat_of_int m / 2 ^ 52 < 4" by simp
  also have "\<dots> \<le> (2::rat) ^ 1024" by simp
  finally have fin: "\<not> 2 ^ 1024 \<le> rat_of_int m / 2 ^ 52" by simp
  from assms(1) have a: "\<bar>q\<bar> = q" "q \<noteq> 0" "\<not> q < 0" by simp_all
  have r: "rat_of_int (round_half_even (q / pow2 (max 0 (- 1022) - 52))) * pow2 (max 0 (- 1022) - 52)
      = rat_of_int m / 2 ^ 52"
  proof -
    have x: "max (0::int) (- 1022) - 52 = 0 - 52" by simp
    have y: "q / (1 / 2 ^ 52) = q * 2 ^ 52" by simp
    show ?thesis unfolding x u y m by simp
  qed
  show ?thesis
    unfolding fl_def Let_def a(1) e r using a(2,3) fin by simp
qed

lemma quotient_29_20: "toFixed1 (js_div (num_of_int 29) (num_of_int 20)) = Decimal ''1.4''"
proof -
  have "fl (29 / 20) = Finite (rat_of_int 6530219459687219 / 2 ^ 52)"
    by (rule fl_between_1_and_2) simp_all
  then have "js_div (num_of_int 29) (num_of_int 20) = Finite (6530219459687219 / 2 ^ 52)"
    by (simp add: num_of_int_exact)
  moreover have "\<lfloor>10 * \<bar>6530219459687219 / 2 ^ 52 :: rat\<bar> + 1 / 2\<rfloor> = 14"
    by (simp add: floor_eq_iff)
  ultimately show ?thesis
    by (simp add: fixed1_two_digits)
qed

lemma quotient_5_4: "toFixed1 (js_div (num_of_int 5) (num_of_int 4)) = Decimal ''1.3''"
proof -
  have "fl (5 / 4) = Finite (rat_of_int 5629499534213120 / 2 ^ 52)"
    by (rule fl_between_1_and_2) simp_all
  then have "js_div (num_of_int 5) (num_of_int 4) = Finite (5629499534213120 / 2 ^ 52)"
    by (simp add: num_of_int_exact)
  moreover have "\<lfloor>10 * \<bar>5629499534213120 / 2 ^ 52 :: rat\<bar> + 1 / 2\<rfloor> = 13"
    by (simp add: floor_eq_iff)
  ultimately show ?thesis
    by (simp add: fixed1_two_digits)
qed

lemma average_tie_down: "avgStarRating (rated (replicate 11 1 @ replicate 9 2)) 1 = Decimal ''1.4''"
proof -
  have "sum_list (replicate 11 1 @ replicate 9 (2::int)) = 29"
    by (simp add: sum_list_replicate)
  then show ?thesis
    by (simp add: avgStarRating_rated quotient_29_20 del: toFixed1.simps js_div.simps)
qed

lemma average_tie_up: "avgStarRating (rated [1, 1, 1, 2]) 1 = Decimal ''1.3''"
  by (simp add: avgStarRating_rated quotient_5_4 del: toFixed1.simps js_div.simps)

end
